theory Spec2Isabelle
  imports Complex_Main
begin

section \<open>Distributed tridiagonal Laplacian inversion: data model\<close>

text \<open>
  The solvers work per Fourier mode on complex tridiagonal systems whose unknowns are
  spread over the ranks of the x decomposition. \<open>dcomplex\<close> is modelled by
  \<^typ>\<open>complex\<close> and \<open>BoutReal\<close> by \<^typ>\<open>real\<close> (exact arithmetic); an
  \<open>Array<dcomplex>\<close> is a list. Every \<open>throw BoutException\<close> of the sources is a
  constructor of \<open>error\<close>; the last two constructors stand for what is not a throw in
  the code and has no value in the model.
\<close>

datatype error =
    TridagRewrite              \<comment> \<open>tridag: first diagonal element is zero\<close>
  | TridagZeroPivot            \<comment> \<open>tridag: an elimination pivot is zero\<close>
  | IndexOutOfRange            \<comment> \<open>Matrix element access outside the allocation\<close>
  | NXPE_not_pow2              \<comment> \<open>LaplacePCR error: NXPE must be a power of 2\<close>
  | NYPE_not_one               \<comment> \<open>LaplacePCR error: NYPE must equal 1\<close>
  | PCR_serial                 \<comment> \<open>PCR method only works for NXPE > 1\<close>
  | GlobalNx_not_pow2          \<comment> \<open>LaplacePCR error: GlobalNx must be a power of 2\<close>
  | Maxits_diag_dominant       \<comment> \<open>not converged within maxits, matrix diagonally dominant: increase maxits\<close>
  | Maxits_not_diag_dominant   \<comment> \<open>not converged within maxits, no guarantee of convergence\<close>
  | NonFinite                  \<comment> \<open>a division by zero; the code goes on with a value that is not a number\<close>
  | NoReturn                   \<comment> \<open>a routine that has not returned when its fuel is used up\<close>

text \<open>The part of \<open>Mesh\<close> the solvers read.\<close>

record mesh =
  LocalNx :: nat
  xstart :: nat
  xend :: nat
  firstX :: bool
  lastX :: bool
  periodicX :: bool
  NXPE :: int
  NYPE :: int
  GlobalNx :: int
  LocalNz :: int

subsection \<open>The local tridiagonal solve\<close>

text \<open>
  Modelled from the spec: \<open>tridag\<close> (declared in \<open>lapack_routines.hxx\<close>, its body is
  not among the sources). The spec describes it as a direct Thomas-algorithm-style
  forward/backward elimination of the rank-local block that fails when a pivot is zero.
  \<open>thomas g p rows\<close> eliminates the rows \<open>(a, b, c, r)\<close> from the first to the last,
  where the unknown before the first row is \<open>p - g * u\<close> for the first unknown
  \<open>u\<close>, and substitutes back on the way up.
\<close>

fun thomas :: "complex \<Rightarrow> complex \<Rightarrow> (complex \<times> complex \<times> complex \<times> complex) list
    \<Rightarrow> error + complex list" where
  "thomas g p [] = Inr []"
| "thomas g p ((a, b, c, r) # rows) =
     (let bet = b - a * g in
      if bet = 0 then Inl TridagZeroPivot
      else (case thomas (c / bet) ((r - a * p) / bet) rows of
              Inl e \<Rightarrow> Inl e
            | Inr [] \<Rightarrow> Inr [(r - a * p) / bet]
            | Inr (u # us) \<Rightarrow> Inr (((r - a * p) / bet - (c / bet) * u) # u # us)))"

definition tridag :: "complex list \<Rightarrow> complex list \<Rightarrow> complex list \<Rightarrow> complex list \<Rightarrow> nat
    \<Rightarrow> error + complex list" where
  "tridag a b c r n =
     (if 0 < n \<and> b ! 0 = 0 then Inl TridagRewrite
      else thomas 0 0 (map (\<lambda>j. (a ! j, b ! j, c ! j, r ! j)) [0..<n]))"

subsection \<open>Guard vectors and reconstruction (LaplaceParallelTri::solve)\<close>

text \<open>The unit impulse \<open>evec\<close> of the source: all zero, one at index \<open>k\<close>.\<close>

definition evec :: "nat \<Rightarrow> nat \<Rightarrow> complex list" where
  "evec ncx k = (fold (\<lambda>i e. e[i := 0]) [0..<ncx] (replicate ncx 0))[k := 1]"

text \<open>
  The guard vectors of one mode. They are recomputed on the first call for the mode or
  when coefficients are not stored, and kept otherwise. On the last rank the upper
  guard vector is set to zero, on the first rank the lower one.
\<close>

record 'a guard_vectors =
  lowerGuardVector :: "'a list"
  upperGuardVector :: "'a list"

definition find_edge_update_vectors ::
  "bool \<Rightarrow> bool \<Rightarrow> mesh \<Rightarrow> complex list \<Rightarrow> complex list \<Rightarrow> complex list
     \<Rightarrow> complex guard_vectors \<Rightarrow> error + complex guard_vectors" where
  "find_edge_update_vectors first_call store_coefficients m avec bvec cvec gv =
     (let ncx = LocalNx m in
      if first_call \<or> \<not> store_coefficients then
        (case (if \<not> lastX m then
                 (case tridag avec bvec cvec (evec ncx (xend m + 1)) ncx of
                    Inl e \<Rightarrow> Inl e
                  | Inr tmp \<Rightarrow> Inr (fold (\<lambda>i u. u[i := tmp ! i]) [0..<ncx] (upperGuardVector gv)))
               else Inr (fold (\<lambda>i u. u[i := 0]) [0..<ncx] (upperGuardVector gv))) of
           Inl e \<Rightarrow> Inl e
         | Inr upper \<Rightarrow>
            (case (if \<not> firstX m then
                     (case tridag avec bvec cvec (evec ncx (xstart m - 1)) ncx of
                        Inl e \<Rightarrow> Inl e
                      | Inr tmp \<Rightarrow> Inr (fold (\<lambda>i l. l[i := tmp ! i]) [0..<ncx] (lowerGuardVector gv)))
                   else Inr (fold (\<lambda>i l. l[i := 0]) [0..<ncx] (lowerGuardVector gv))) of
               Inl e \<Rightarrow> Inl e
             | Inr lower \<Rightarrow> Inr \<lparr>lowerGuardVector = lower, upperGuardVector = upper\<rparr>))
      else Inr gv)"

text \<open>
  Reconstruction of the whole local solution of one mode from the halo values stored
  in \<open>xk1dlast\<close> at \<open>xstart - 1\<close> and \<open>xend + 1\<close>: three loops over the local points that
  overwrite \<open>xk1d\<close>. The loops only add and multiply, so they are written for any
  number type; the solver runs them on \<open>dcomplex\<close>.
\<close>

definition reconstruct ::
  "mesh \<Rightarrow> ('a::{plus,times}) list \<Rightarrow> 'a guard_vectors \<Rightarrow> 'a list \<Rightarrow> 'a list \<Rightarrow> 'a list" where
  "reconstruct m minvb gv xk1dlast xk1d =
     (let ncx = LocalNx m;
          x1 = fold (\<lambda>i x. x[i := minvb ! i]) [0..<ncx] xk1d;
          x2 = (if \<not> lastX m
                then fold (\<lambda>i x. x[i := x ! i + upperGuardVector gv ! i * xk1dlast ! (xend m + 1)])
                       [0..<ncx] x1
                else x1);
          x3 = (if \<not> firstX m
                then fold (\<lambda>i x. x[i := x ! i + lowerGuardVector gv ! i * xk1dlast ! (xstart m - 1)])
                       [0..<ncx] x2
                else x2)
      in x3)"


text \<open>
  The guard vector of a physical boundary is zero: the lower one on the first rank, the
  upper one on the last rank.
\<close>

definition gv_boundary_zero :: "mesh \<Rightarrow> complex guard_vectors \<Rightarrow> bool" where
  "gv_boundary_zero m gv \<longleftrightarrow>
     (firstX m \<longrightarrow> (\<forall>i < LocalNx m. lowerGuardVector gv ! i = 0)) \<and>
     (lastX m \<longrightarrow> (\<forall>i < LocalNx m. upperGuardVector gv ! i = 0))"

subsection \<open>Construction of the cyclic-reduction solver (LaplacePCR::LaplacePCR)\<close>

text \<open>
  Modelled from the spec: \<open>is_pow2\<close> (from \<open>utils.hxx\<close>, not among the sources), the
  test that a count is a power of two.
\<close>

function is_pow2 :: "int \<Rightarrow> bool" where
  "is_pow2 x = (if x \<le> 0 then False else if x = 1 then True else even x \<and> is_pow2 (x div 2))"
  by pat_completeness auto
termination
  by (relation "measure nat") auto

declare is_pow2.simps [simp del]

text \<open>
  The options and mesh sizes the constructor reads besides the processor layout, and the
  sizes it stores. The checks come first, in the order of the source; each failed check
  throws, so no solver object exists on which \<open>solve\<close> could be called.
\<close>

record pcr_options =
  dst :: bool
  maxmode :: int

record pcr_solver =
  pcr_nmode :: int
  pcr_xs :: nat
  pcr_xe :: nat
  pcr_n :: int

definition LaplacePCR :: "pcr_options \<Rightarrow> mesh \<Rightarrow> error + pcr_solver" where
  "LaplacePCR opt m =
     (let nxpe = NXPE m in
      if \<not> is_pow2 nxpe then Inl NXPE_not_pow2
      else let nype = NYPE m in
      if nype \<noteq> 1 then Inl NYPE_not_one
      else if firstX m \<and> lastX m then Inl PCR_serial
      else if \<not> is_pow2 (GlobalNx m - 4) then Inl GlobalNx_not_pow2
      else
        (let nmode = (if dst opt then LocalNz m - 2 else maxmode opt + 1);
             xs = (if firstX m \<and> \<not> periodicX m then 0 else xstart m);
             xe = (if lastX m \<and> \<not> periodicX m then LocalNx m - 1 else xend m);
             n = int xe - int xs + 1
         in Inr \<lparr>pcr_nmode = nmode, pcr_xs = xs, pcr_xe = xe, pcr_n = n\<rparr>))"

subsection \<open>The relaxation on the interface values (LaplaceParallelTri::solve)\<close>

text \<open>
  The internal boundaries are patched into identity rows with zero right-hand side
  before the local solves.
\<close>

record tri_system =
  avec :: "complex list"
  bvec :: "complex list"
  cvec :: "complex list"
  bk1d :: "complex list"



text \<open>
  The coefficients of the interface relation of one mode, read off the guard vectors and
  the particular solution \<open>minvb\<close> at the two interior edge points.
\<close>

record coefs =
  al :: complex
  bl :: complex
  au :: complex
  bu :: complex
  rl :: complex
  ru :: complex


text \<open>Absolute and relative error at one point (\<open>get_errors\<close>); the pair is (rel, abs).\<close>

definition get_errors :: "complex \<Rightarrow> complex \<Rightarrow> real \<times> real" where
  "get_errors x xlast =
     (let error_abs = cmod (x - xlast);
          xabs = cmod x
      in if xabs > 0 then (error_abs / xabs, error_abs) else (error_abs, error_abs))"

text \<open>
  \<open>LaplaceParallelTri::is_diagonally_dominant\<close>: both rows of this rank's relation.
  The code evaluates \<open>std::fabs(a) + std::fabs(b)\<close> in double precision and compares
  the rounded value with 1; the rounding is not modelled, so that value is the parameter
  \<open>abs_sum a b\<close>.
\<close>

definition is_diagonally_dominant ::
  "(complex \<Rightarrow> complex \<Rightarrow> real) \<Rightarrow> complex \<Rightarrow> complex \<Rightarrow> complex \<Rightarrow> complex \<Rightarrow> bool" where
  "is_diagonally_dominant abs_sum a_l a_u b_l b_u =
     (let is_dd = True;
          is_dd = (if abs_sum a_l b_l > 1 then False else is_dd);
          is_dd = (if abs_sum a_u b_u > 1 then False else is_dd)
      in is_dd)"

text \<open>
  The local variables of the while loop for one mode. What \<open>communicateXIn\<close> and
  \<open>communicateXOut\<close> return comes from the neighbouring rank and is an input of each
  iteration: the neighbour's flag and its edge value. What this rank hands to them is
  recorded beside the new state.
\<close>

record loop_flags =
  self_in :: bool
  self_out :: bool
  neighbour_in :: bool
  neighbour_out :: bool
  count :: int

record ipt_state = loop_flags +
  ipt_xloc :: "complex list"
  ipt_xloclast :: "complex list"

record halo_msg =
  msg_flag :: bool
  msg_value :: complex

record sent_msgs =
  sent_in :: "halo_msg option"
  sent_out :: "halo_msg option"

datatype 's outcome = Break 's | Continue 's

fun outcome_state :: "'s outcome \<Rightarrow> 's" where
  "outcome_state (Break s) = s"
| "outcome_state (Continue s) = s"

fun is_Break :: "'s outcome \<Rightarrow> bool" where
  "is_Break (Break s) = True"
| "is_Break (Continue s) = False"

record tolerances =
  rtol :: real
  atol :: real
  maxits :: int

text \<open>The tolerance test on the two interior edge points.\<close>

definition edges_within_tolerance :: "tolerances \<Rightarrow> complex list \<Rightarrow> complex list \<Rightarrow> bool" where
  "edges_within_tolerance tol xloc xloclast =
     (let (error_rel_lower, error_abs_lower) = get_errors (xloc ! 1) (xloclast ! 1);
          (error_rel_upper, error_abs_upper) = get_errors (xloc ! 2) (xloclast ! 2)
      in (error_rel_lower < rtol tol \<or> error_abs_lower < atol tol) \<and>
         (error_rel_upper < rtol tol \<or> error_abs_upper < atol tol))"

text \<open>
  One pass through the body of \<open>while(true)\<close> in the final \<open>LaplaceParallelTri::solve\<close>,
  in the order of the source: update of the two edge values; errors and flags;
  communication; exit test, flags taken over from the neighbours, the iteration count
  and its bound, copy to \<open>xloclast\<close>.
\<close>

definition ipt_update :: "coefs \<Rightarrow> ipt_state \<Rightarrow> ipt_state" where
  "ipt_update cf s =
     (let xl = ipt_xloclast s;
          x1 = (ipt_xloc s)[1 := rl cf + al cf * xl ! 0 + bl cf * xl ! 3];
          x2 = x1[2 := ru cf + au cf * xl ! 0 + bu cf * xl ! 3]
      in s\<lparr>ipt_xloc := x2\<rparr>)"

definition ipt_set_flags :: "tolerances \<Rightarrow> ipt_state \<Rightarrow> ipt_state" where
  "ipt_set_flags tol s =
     (if count s > 0 \<and> edges_within_tolerance tol (ipt_xloc s) (ipt_xloclast s)
      then s\<lparr>self_in := True, self_out := True\<rparr>
      else s)"

definition ipt_communicate ::
  "bool \<Rightarrow> halo_msg \<Rightarrow> halo_msg \<Rightarrow> ipt_state \<Rightarrow> ipt_state \<times> sent_msgs" where
  "ipt_communicate new_method recv_in recv_out s =
     (let x = ipt_xloc s;
          to_in = (if \<not> neighbour_in s
                   then Some \<lparr>msg_flag = self_in s, msg_value = (if new_method then x ! 2 else x ! 1)\<rparr>
                   else None);
          s1 = (if \<not> neighbour_in s
                then s\<lparr>neighbour_in := msg_flag recv_in, ipt_xloc := x[0 := msg_value recv_in]\<rparr>
                else s);
          y = ipt_xloc s1;
          to_out = (if \<not> neighbour_out s1
                    then Some \<lparr>msg_flag = self_out s1, msg_value = (if new_method then y ! 1 else y ! 2)\<rparr>
                    else None);
          s2 = (if \<not> neighbour_out s1
                then s1\<lparr>neighbour_out := msg_flag recv_out, ipt_xloc := y[3 := msg_value recv_out]\<rparr>
                else s1)
      in (s2, \<lparr>sent_in = to_in, sent_out = to_out\<rparr>))"

definition ipt_finish ::
  "(complex \<Rightarrow> complex \<Rightarrow> real) \<Rightarrow> tolerances \<Rightarrow> coefs \<Rightarrow> ipt_state \<Rightarrow> error + ipt_state outcome" where
  "ipt_finish abs_sum tol cf s =
     (if self_in s \<and> self_out s then Inr (Break s)
      else
        (let s1 = (if neighbour_in s then s\<lparr>self_in := True\<rparr> else s);
             s2 = (if neighbour_out s1 then s1\<lparr>self_out := True\<rparr> else s1);
             s3 = s2\<lparr>count := count s2 + 1\<rparr>
         in if count s3 > maxits tol then
              (if is_diagonally_dominant abs_sum (al cf) (au cf) (bl cf) (bu cf)
               then Inl Maxits_diag_dominant
               else Inl Maxits_not_diag_dominant)
            else Inr (Continue (s3\<lparr>ipt_xloclast := ipt_xloc s3\<rparr>))))"

definition ipt_iteration ::
  "(complex \<Rightarrow> complex \<Rightarrow> real) \<Rightarrow> tolerances \<Rightarrow> bool \<Rightarrow> coefs \<Rightarrow> halo_msg \<Rightarrow> halo_msg \<Rightarrow> ipt_state
     \<Rightarrow> error + (ipt_state outcome \<times> sent_msgs)" where
  "ipt_iteration abs_sum tol new_method cf recv_in recv_out s =
     (let (s1, sent) = ipt_communicate new_method recv_in recv_out (ipt_set_flags tol (ipt_update cf s))
      in case ipt_finish abs_sum tol cf s1 of
           Inl e \<Rightarrow> Inl e
         | Inr oc \<Rightarrow> Inr (oc, sent))"

text \<open>
  The while loop. The messages of the neighbours are given for each value of the
  iteration count. The loop ends: the count grows in every pass that continues, and a
  pass that pushes it beyond \<open>maxits\<close> throws.
\<close>

lemma ipt_update_count: "count (ipt_update cf s) = count s"
  by (simp add: ipt_update_def Let_def)

lemma ipt_set_flags_count: "count (ipt_set_flags tol s) = count s"
  by (simp add: ipt_set_flags_def)

lemma ipt_communicate_count: "count (fst (ipt_communicate nm ri ro s)) = count s"
  by (simp add: ipt_communicate_def Let_def)

lemma ipt_finish_Continue_count:
  "ipt_finish abs_sum tol cf s = Inr (Continue s') \<Longrightarrow> count s' = count s + 1 \<and> count s' \<le> maxits tol"
  by (auto simp: ipt_finish_def Let_def split: if_splits)

lemma ipt_iteration_Continue_count:
  assumes "ipt_iteration abs_sum tol nm cf ri ro s = Inr (Continue s', sent)"
  shows "count s' = count s + 1 \<and> count s' \<le> maxits tol"
proof -
  obtain s1 sent1 where c: "ipt_communicate nm ri ro (ipt_set_flags tol (ipt_update cf s)) = (s1, sent1)"
    by (cases "ipt_communicate nm ri ro (ipt_set_flags tol (ipt_update cf s))")
  from assms c have "ipt_finish abs_sum tol cf s1 = Inr (Continue s')"
    by (simp add: ipt_iteration_def split: sum.splits)
  then have "count s' = count s1 + 1 \<and> count s' \<le> maxits tol"
    by (rule ipt_finish_Continue_count)
  moreover have "count s1 = count s"
    using ipt_communicate_count [of nm ri ro "ipt_set_flags tol (ipt_update cf s)"] c
    by (simp add: ipt_set_flags_count ipt_update_count)
  ultimately show ?thesis by simp
qed

function ipt_loop ::
  "(complex \<Rightarrow> complex \<Rightarrow> real) \<Rightarrow> tolerances \<Rightarrow> bool \<Rightarrow> coefs \<Rightarrow> (int \<Rightarrow> halo_msg) \<Rightarrow> (int \<Rightarrow> halo_msg) \<Rightarrow> ipt_state
     \<Rightarrow> error + ipt_state" where
  "ipt_loop abs_sum tol new_method cf recv_in recv_out s =
     (case ipt_iteration abs_sum tol new_method cf (recv_in (count s)) (recv_out (count s)) s of
        Inl e \<Rightarrow> Inl e
      | Inr (Break s', sent) \<Rightarrow> Inr s'
      | Inr (Continue s', sent) \<Rightarrow> ipt_loop abs_sum tol new_method cf recv_in recv_out s')"
  by pat_completeness auto
termination
proof (relation "measure (\<lambda>(abs_sum, tol, new_method, cf, recv_in, recv_out, s). nat (maxits tol + 1 - count s))")
  show "wf (measure (\<lambda>(abs_sum, tol, new_method, cf, recv_in, recv_out, s). nat (maxits tol + 1 - count s)))"
    by simp
next
  fix abs_sum :: "complex \<Rightarrow> complex \<Rightarrow> real" and tol :: tolerances
    and new_method cf recv_in recv_out and s :: ipt_state
    and x2 :: "ipt_state outcome \<times> sent_msgs" and x1 :: "ipt_state outcome" and y s'
  assume it: "ipt_iteration abs_sum tol new_method cf (recv_in (count s)) (recv_out (count s)) s = Inr x2"
    and x2: "(x1, y) = x2" and x1: "x1 = Continue s'"
  from it x2 x1 have "ipt_iteration abs_sum tol new_method cf (recv_in (count s)) (recv_out (count s)) s
      = Inr (Continue s', y)"
    by simp
  then have "count s' = count s + 1 \<and> count s' \<le> maxits tol"
    by (rule ipt_iteration_Continue_count)
  then show "((abs_sum, tol, new_method, cf, recv_in, recv_out, s'), (abs_sum, tol, new_method, cf, recv_in, recv_out, s))
      \<in> measure (\<lambda>(abs_sum, tol, new_method, cf, recv_in, recv_out, s). nat (maxits tol + 1 - count s))"
    by simp
qed

declare ipt_loop.simps [simp del]

text \<open>The state in which the loop for one mode starts (\<open>count = 0\<close>, flags).\<close>

definition ipt_initial :: "mesh \<Rightarrow> complex list \<Rightarrow> complex list \<Rightarrow> ipt_state" where
  "ipt_initial m xloc0 xk1d =
     \<lparr>self_in = False, self_out = False,
      neighbour_in = (if firstX m then True else False),
      neighbour_out = (if lastX m then True else False),
      count = 0,
      ipt_xloc = xloc0,
      ipt_xloclast = [xk1d ! (xstart m - 1), xk1d ! xstart m, xk1d ! xend m, xk1d ! (xend m + 1)]\<rparr>"


subsection \<open>The earlier relaxation on the whole local block\<close>

text \<open>
  The earlier \<open>LaplaceParallelTri::solve\<close> of the same file iterates on the whole local
  array: the halo values are written into the right-hand side, the local block is
  solved again, and the largest change over the local points is compared with the
  tolerances.

  Modelled from the spec: \<open>Mesh::communicateXIn\<close> and \<open>communicateXOut\<close> on an array
  (declared in \<open>mesh.hxx\<close>, not among the sources), the halo exchange between adjacent
  ranks: the guard cells on that side take the values sent by the neighbour.
\<close>

record relax_state = loop_flags +
  xk1d :: "complex list"
  xk1dlast :: "complex list"
  sys :: tri_system

record halo_array_msg =
  amsg_flag :: bool
  amsg_values :: "complex list"

definition max_errors :: "nat \<Rightarrow> complex list \<Rightarrow> complex list \<Rightarrow> real \<times> real" where
  "max_errors ncx x xlast =
     fold (\<lambda>ix (error_abs, xmax).
             (let diff = cmod (x ! ix - xlast ! ix);
                  xabs = cmod (x ! ix)
              in (if diff > error_abs then diff else error_abs,
                  if xabs > xmax then xabs else xmax)))
          [0..<ncx] (0, 0)"

definition relax_patch_rhs :: "mesh \<Rightarrow> relax_state \<Rightarrow> relax_state" where
  "relax_patch_rhs m s =
     (let t1 = (if \<not> lastX m
                then fold (\<lambda>ix t. t\<lparr>bk1d := (bk1d t)[ix := xk1d s ! ix]\<rparr>) [xend m + 1..<LocalNx m] (sys s)
                else sys s);
          t2 = (if \<not> firstX m
                then fold (\<lambda>ix t. t\<lparr>bk1d := (bk1d t)[ix := xk1d s ! ix]\<rparr>) [0..<xstart m] t1
                else t1)
      in s\<lparr>sys := t2\<rparr>)"

definition relax_set_flags :: "tolerances \<Rightarrow> mesh \<Rightarrow> relax_state \<Rightarrow> relax_state" where
  "relax_set_flags tol m s =
     (let (error_abs, xmax) = max_errors (LocalNx m) (xk1d s) (xk1dlast s);
          error_rel = (if xmax > 0 then error_abs / xmax else error_abs)
      in if error_rel < rtol tol \<or> error_abs < atol tol
         then s\<lparr>self_in := True, self_out := True\<rparr>
         else s)"

definition relax_communicate ::
  "mesh \<Rightarrow> halo_array_msg \<Rightarrow> halo_array_msg \<Rightarrow> relax_state \<Rightarrow> relax_state" where
  "relax_communicate m recv_in recv_out s =
     (let s1 = (if \<not> neighbour_in s
                then s\<lparr>neighbour_in := amsg_flag recv_in,
                       xk1d := fold (\<lambda>ix y. y[ix := amsg_values recv_in ! ix]) [0..<xstart m] (xk1d s)\<rparr>
                else s);
          s2 = (if \<not> neighbour_out s1
                then s1\<lparr>neighbour_out := amsg_flag recv_out,
                        xk1d := fold (\<lambda>ix y. y[ix := amsg_values recv_out ! (ix - (xend m + 1))])
                                  [xend m + 1..<LocalNx m] (xk1d s1)\<rparr>
                else s1)
      in s2)"

definition relax_finish :: "tolerances \<Rightarrow> relax_state \<Rightarrow> relax_state outcome" where
  "relax_finish tol s =
     (if self_in s \<and> self_out s then Break s
      else
        (let s1 = (if neighbour_in s then s\<lparr>self_in := True\<rparr> else s);
             s2 = (if neighbour_out s1 then s1\<lparr>self_out := True\<rparr> else s1);
             s3 = s2\<lparr>count := count s2 + 1\<rparr>
         in if count s3 > maxits tol then Break s3
            else Continue (s3\<lparr>xk1dlast := xk1d s3\<rparr>)))"

definition relax_iteration ::
  "tolerances \<Rightarrow> mesh \<Rightarrow> halo_array_msg \<Rightarrow> halo_array_msg \<Rightarrow> relax_state
     \<Rightarrow> error + relax_state outcome" where
  "relax_iteration tol m recv_in recv_out s =
     (let s1 = relax_patch_rhs m s;
          t = sys s1
      in case tridag (avec t) (bvec t) (cvec t) (bk1d t) (LocalNx m) of
           Inl e \<Rightarrow> Inl e
         | Inr x \<Rightarrow>
             Inr (relax_finish tol
                    (relax_communicate m recv_in recv_out (relax_set_flags tol m (s1\<lparr>xk1d := x\<rparr>)))))"

lemma relax_finish_Continue_count:
  "relax_finish tol s = Continue s' \<Longrightarrow> count s' = count s + 1 \<and> count s' \<le> maxits tol"
  by (auto simp: relax_finish_def Let_def split: if_splits)

lemma relax_communicate_count: "count (relax_communicate m ri ro s) = count s"
  by (simp add: relax_communicate_def Let_def)

lemma relax_set_flags_count: "count (relax_set_flags tol m s) = count s"
  by (simp add: relax_set_flags_def Let_def split: prod.splits)

lemma relax_patch_rhs_count: "count (relax_patch_rhs m s) = count s"
  by (simp add: relax_patch_rhs_def Let_def)

lemma relax_iteration_Continue_count:
  assumes "relax_iteration tol m ri ro s = Inr (Continue s')"
  shows "count s' = count s + 1 \<and> count s' \<le> maxits tol"
proof -
  from assms obtain x where
    "relax_finish tol (relax_communicate m ri ro
        (relax_set_flags tol m ((relax_patch_rhs m s)\<lparr>xk1d := x\<rparr>))) = Continue s'"
    by (auto simp: relax_iteration_def Let_def split: sum.splits)
  from relax_finish_Continue_count [OF this] show ?thesis
    by (simp add: relax_communicate_count relax_set_flags_count relax_patch_rhs_count)
qed

function relax_loop ::
  "tolerances \<Rightarrow> mesh \<Rightarrow> (int \<Rightarrow> halo_array_msg) \<Rightarrow> (int \<Rightarrow> halo_array_msg) \<Rightarrow> relax_state
     \<Rightarrow> error + relax_state" where
  "relax_loop tol m recv_in recv_out s =
     (case relax_iteration tol m (recv_in (count s)) (recv_out (count s)) s of
        Inl e \<Rightarrow> Inl e
      | Inr (Break s') \<Rightarrow> Inr s'
      | Inr (Continue s') \<Rightarrow> relax_loop tol m recv_in recv_out s')"
  by pat_completeness auto
termination
proof (relation "measure (\<lambda>(tol, m, recv_in, recv_out, s). nat (maxits tol + 1 - count s))")
  show "wf (measure (\<lambda>(tol, m, recv_in, recv_out, s). nat (maxits tol + 1 - count s)))"
    by simp
next
  fix tol :: tolerances and m recv_in recv_out and s :: relax_state
    and x2 :: "relax_state outcome" and s'
  assume it: "relax_iteration tol m (recv_in (count s)) (recv_out (count s)) s = Inr x2"
    and x2: "x2 = Continue s'"
  from it x2 have "relax_iteration tol m (recv_in (count s)) (recv_out (count s)) s
      = Inr (Continue s')"
    by simp
  then have "count s' = count s + 1 \<and> count s' \<le> maxits tol"
    by (rule relax_iteration_Continue_count)
  then show "((tol, m, recv_in, recv_out, s'), (tol, m, recv_in, recv_out, s))
      \<in> measure (\<lambda>(tol, m, recv_in, recv_out, s). nat (maxits tol + 1 - count s))"
    by simp
qed

declare relax_loop.simps [simp del]

subsection \<open>The multigrid solver on the reduced grid (Laplace1DMG)\<close>

text \<open>
  \<open>Matrix<T>\<close> (from \<open>utils.hxx\<close>, not among the sources) is a list of rows. The
  Fourier mode \<open>kz\<close> is the second index; the slice index \<open>jy\<close> of the tensors
  \<open>ar\<close>, \<open>br\<close>, \<open>cr\<close>, \<open>brinv\<close> is fixed during a solve and left out. C++ indexes
  with \<open>int\<close>; an access outside the allocation is the error \<open>IndexOutOfRange\<close>
  (in C++ a failed bounds assertion, or undefined behaviour when assertions are off).
\<close>

definition mat_get :: "'a list list \<Rightarrow> int \<Rightarrow> int \<Rightarrow> error + 'a" where
  "mat_get M i j =
     (if 0 \<le> i \<and> i < int (length M) \<and> 0 \<le> j \<and> j < int (length (M ! nat i))
      then Inr (M ! nat i ! nat j)
      else Inl IndexOutOfRange)"

definition mat_set :: "'a list list \<Rightarrow> int \<Rightarrow> int \<Rightarrow> 'a \<Rightarrow> error + 'a list list" where
  "mat_set M i j v =
     (if 0 \<le> i \<and> i < int (length M) \<and> 0 \<le> j \<and> j < int (length (M ! nat i))
      then Inr (M[nat i := (M ! nat i)[nat j := v]])
      else Inl IndexOutOfRange)"

text \<open>Sequencing of steps that may throw.\<close>

definition bindE :: "error + 'a \<Rightarrow> ('a \<Rightarrow> error + 'b) \<Rightarrow> error + 'b" where
  "bindE r f = (case r of Inl e \<Rightarrow> Inl e | Inr v \<Rightarrow> f v)"

fun for_each :: "int list \<Rightarrow> (int \<Rightarrow> 's \<Rightarrow> error + 's) \<Rightarrow> 's \<Rightarrow> error + 's" where
  "for_each [] f s = Inr s"
| "for_each (i # is) f s = (case f i s of Inl e \<Rightarrow> Inl e | Inr s' \<Rightarrow> for_each is f s')"

text \<open>The values of \<open>x\<close> in \<open>for (x = i; x < n; x += d)\<close>.\<close>

function steps :: "int \<Rightarrow> int \<Rightarrow> int \<Rightarrow> int list" where
  "steps i n d = (if i < n \<and> 0 < d then i # steps (i + d) n d else [])"
  by pat_completeness auto
termination
  by (relation "measure (\<lambda>(i, n, d). nat (n - i))") auto

declare steps.simps [simp del]

record level =
  xloc :: "complex list list"
  residual :: "complex list list"
  ar :: "complex list list"
  br :: "complex list list"
  cr :: "complex list list"
  brinv :: "complex list list"
  rr :: "complex list list"
  included :: bool
  current_level :: int

text \<open>The members of \<open>Laplace1DMG\<close> that the level routines read.\<close>

record mg_options = tolerances +
  nmode :: nat
  max_level :: int
  max_cycle :: int
  predict_exit :: bool

record mg_solver = mg_options +
  converged :: "bool list"
  fine_error :: "complex list list"

text \<open>One point of the Gauss-Seidel sweep.\<close>

definition gs_point :: "level \<Rightarrow> int \<Rightarrow> int \<Rightarrow> error + level" where
  "gs_point lv ix kz =
     bindE (mat_get (rr lv) ix kz) (\<lambda>r.
     bindE (mat_get (ar lv) ix kz) (\<lambda>a.
     bindE (mat_get (xloc lv) (ix - 1) kz) (\<lambda>xm.
     bindE (mat_get (cr lv) ix kz) (\<lambda>c.
     bindE (mat_get (xloc lv) (ix + 1) kz) (\<lambda>xp.
     bindE (mat_get (brinv lv) ix kz) (\<lambda>bi.
     bindE (mat_set (xloc lv) ix kz ((r - a * xm - c * xp) * bi)) (\<lambda>x'.
     Inr (lv\<lparr>xloc := x'\<rparr>))))))))"

text \<open>
  \<open>Level::gauss_seidel_red_black_local\<close>: a sweep over the even points and a sweep over
  the odd points of the local grid, for every mode that has not converged.
\<close>

definition gs_sweep :: "int \<Rightarrow> mesh \<Rightarrow> mg_solver \<Rightarrow> level \<Rightarrow> error + level" where
  "gs_sweep first m l lv =
     (let nxlevel = int (LocalNx m) in
      for_each (steps 0 (int (nmode l)) 1)
        (\<lambda>kz lv. if \<not> converged l ! nat kz
                  then for_each (steps first nxlevel 2) (\<lambda>ix lv. gs_point lv ix kz) lv
                  else Inr lv)
        lv)"

definition gauss_seidel_red_black_local :: "mesh \<Rightarrow> mg_solver \<Rightarrow> level \<Rightarrow> error + level" where
  "gauss_seidel_red_black_local m l lv =
     (if \<not> included lv then Inr lv
      else bindE (gs_sweep 0 m l lv) (gs_sweep 1 m l))"

text \<open>
  \<open>Level::init\<close> on the finest level allocates \<open>xloc\<close> with \<open>ncx + 2\<close> rows and the
  coefficient arrays and the residual with \<open>ncx\<close> rows, one column per mode, sets
  \<open>included\<close>, and copies the coefficients of the rows \<open>xstart \<le> ix < xend\<close>.
  \<open>init_level0\<close> is that level on a mesh with \<open>xend = xstart\<close>, where no row is
  copied, with zero for the entries the code leaves unset; it serves as example data.
\<close>

definition init_level0 :: "mesh \<Rightarrow> mg_solver \<Rightarrow> level" where
  "init_level0 m l =
     \<lparr>xloc = replicate (LocalNx m + 2) (replicate (nmode l) 0),
      residual = replicate (LocalNx m) (replicate (nmode l) 0),
      ar = replicate (LocalNx m) (replicate (nmode l) 0),
      br = replicate (LocalNx m) (replicate (nmode l) 0),
      cr = replicate (LocalNx m) (replicate (nmode l) 0),
      brinv = replicate (LocalNx m) (replicate (nmode l) 0),
      rr = replicate (LocalNx m) (replicate (nmode l) 0),
      included = True,
      current_level = 0\<rparr>"

text \<open>
  \<open>Level::calculate_residual\<close>. The inner loop is
  \<open>for (int ix = 0; ix < l.nmode; kz++)\<close>: its test reads \<open>ix\<close> and \<open>nmode\<close>, its
  increment changes \<open>kz\<close>. The loops may not end, so they take fuel and \<open>None\<close>
  means that the fuel ran out. The inner loop is written for any loop body; the routine
  runs it on \<open>residual_point\<close>.
\<close>

definition residual_point :: "int \<Rightarrow> int \<Rightarrow> level \<Rightarrow> error + level" where
  "residual_point ix kz lv =
     bindE (mat_get (rr lv) ix kz) (\<lambda>r.
     bindE (mat_get (ar lv) ix kz) (\<lambda>a.
     bindE (mat_get (xloc lv) (ix - 1) kz) (\<lambda>xm.
     bindE (mat_get (br lv) ix kz) (\<lambda>b.
     bindE (mat_get (xloc lv) ix kz) (\<lambda>x0.
     bindE (mat_get (cr lv) ix kz) (\<lambda>c.
     bindE (mat_get (xloc lv) (ix + 1) kz) (\<lambda>xp.
     bindE (mat_set (residual lv) ix kz (r - a * xm - b * x0 - c * xp)) (\<lambda>res'.
     Inr (lv\<lparr>residual := res'\<rparr>)))))))))"

fun residual_xloop ::
  "nat \<Rightarrow> (int \<Rightarrow> int \<Rightarrow> 's \<Rightarrow> error + 's) \<Rightarrow> int \<Rightarrow> int \<Rightarrow> int \<Rightarrow> 's \<Rightarrow> (error + int \<times> 's) option" where
  "residual_xloop 0 body n ix kz lv = None"
| "residual_xloop (Suc fuel) body n ix kz lv =
     (if ix < n
      then (case body ix kz lv of
              Inl e \<Rightarrow> Some (Inl e)
            | Inr lv' \<Rightarrow> residual_xloop fuel body n ix (kz + 1) lv')
      else Some (Inr (kz, lv)))"

fun residual_kzloop ::
  "nat \<Rightarrow> (int \<Rightarrow> int \<Rightarrow> 's \<Rightarrow> error + 's) \<Rightarrow> int \<Rightarrow> bool list \<Rightarrow> int \<Rightarrow> 's \<Rightarrow> (error + 's) option" where
  "residual_kzloop 0 body n conv kz lv = None"
| "residual_kzloop (Suc fuel) body n conv kz lv =
     (if kz < n
      then (if \<not> conv ! nat kz
            then (case residual_xloop fuel body n 0 kz lv of
                    None \<Rightarrow> None
                  | Some (Inl e) \<Rightarrow> Some (Inl e)
                  | Some (Inr (kz', lv')) \<Rightarrow> residual_kzloop fuel body n conv (kz' + 1) lv')
            else residual_kzloop fuel body n conv (kz + 1) lv)
      else Some (Inr lv))"

definition calculate_residual :: "nat \<Rightarrow> mg_solver \<Rightarrow> level \<Rightarrow> (error + level) option" where
  "calculate_residual fuel l lv =
     (if \<not> included lv then Some (Inr lv)
      else residual_kzloop fuel residual_point (int (nmode l)) (converged l) 0 lv)"

subsection \<open>The iteration of Laplace1DMG::solve\<close>

text \<open>
  The while loop of \<open>Laplace1DMG::solve\<close> drives the level routines: smoothing on the
  current level, at the end of a cycle on level 0 the residual and, when it is due,
  the collective convergence check, then the move to the next level, and the bound on
  the iteration count. The levels are a list, indexed by the level number. The sweep
  and the residual are the routines above, run on the level with that number; the
  residual takes fuel, and a call that does not return within it is the outcome
  \<open>NoReturn\<close>.

  The other routines are operations the loop takes as parameters, each of which may
  throw: those that communicate (\<open>refine\<close>, \<open>coarsen\<close>, \<open>synchronize_reduced_field\<close>,
  \<open>calculate_total_residual\<close> with its reduction, \<open>is_diagonally_dominant\<close> with the
  reduction that follows it) and \<open>update_solution\<close>. The prediction of the finishing
  cycle is double-precision arithmetic (\<open>std::log\<close>, \<open>std::ceil\<close>, a conversion to \<open>int\<close>
  that is undefined for a value that is not finite); its result is the operation
  \<open>predict_op\<close> on the current and the old errors.
\<close>

definition level_op :: "(level \<Rightarrow> error + level) \<Rightarrow> int \<Rightarrow> level list \<Rightarrow> error + level list" where
  "level_op f lvl L =
     (if 0 \<le> lvl \<and> lvl < int (length L)
      then bindE (f (L ! nat lvl)) (\<lambda>lv. Inr (L[nat lvl := lv]))
      else Inl IndexOutOfRange)"

definition solver_of :: "'a mg_options_scheme \<Rightarrow> bool list \<Rightarrow> complex list list \<Rightarrow> mg_solver" where
  "solver_of opt cv fe =
     \<lparr>rtol = rtol opt, atol = atol opt, maxits = maxits opt, nmode = nmode opt,
      max_level = max_level opt, max_cycle = max_cycle opt, predict_exit = predict_exit opt,
      converged = cv, fine_error = fe\<rparr>"

definition gauss_seidel_level ::
  "mesh \<Rightarrow> 'a mg_options_scheme \<Rightarrow> complex list list \<Rightarrow> int \<Rightarrow> bool list \<Rightarrow> level list
     \<Rightarrow> error + level list" where
  "gauss_seidel_level m opt fe lvl cv L =
     level_op (gauss_seidel_red_black_local m (solver_of opt cv fe)) lvl L"

definition residual_level ::
  "nat \<Rightarrow> 'a mg_options_scheme \<Rightarrow> complex list list \<Rightarrow> int \<Rightarrow> bool list \<Rightarrow> level list
     \<Rightarrow> error + level list" where
  "residual_level fuel opt fe lvl cv L =
     level_op (\<lambda>lv. case calculate_residual fuel (solver_of opt cv fe) lv of
                       None \<Rightarrow> Inl NoReturn
                     | Some r \<Rightarrow> r) lvl L"

text \<open>\<open>error_abs\<close>, \<open>error_rel\<close> and \<open>converged\<close> of the solver, per mode.\<close>

record residual_norms =
  error_abs :: "real list"
  error_rel :: "real list"
  conv :: "bool list"

record mg_ops =
  total_residual_op :: "residual_norms \<Rightarrow> level list \<Rightarrow> error + (level list \<times> residual_norms)"
  refine_op :: "int \<Rightarrow> bool list \<Rightarrow> level list \<Rightarrow> error + level list"
  update_solution_op :: "int \<Rightarrow> bool list \<Rightarrow> level list \<Rightarrow> error + level list"
  synchronize_xloc_op :: "int \<Rightarrow> bool list \<Rightarrow> level list \<Rightarrow> error + level list"
  synchronize_residual_op :: "int \<Rightarrow> bool list \<Rightarrow> level list \<Rightarrow> error + level list"
  coarsen_op :: "int \<Rightarrow> bool list \<Rightarrow> level list \<Rightarrow> error + level list"
  diag_dominant_op :: "level list \<Rightarrow> error + bool"
  dd_other_ranks :: bool
  predict_op :: "residual_norms \<Rightarrow> real list \<Rightarrow> real list \<Rightarrow> int"

text \<open>
  What the loop is run with: the mesh, the fuel of the residual, \<open>fine_error\<close>, and the
  operations.
\<close>

record mg_env =
  env_mesh :: mesh
  env_fuel :: nat
  env_fine_error :: "complex list list"
  env_ops :: mg_ops

text \<open>
  The local variables of the loop; \<open>count\<close> and \<open>current_level\<close> carry a suffix because
  the names are taken. \<open>norms\<close> holds \<open>error_abs\<close>, \<open>error_rel\<close> and \<open>converged\<close>.
\<close>

record mg_vars =
  count_s :: int
  subcount :: int
  cyclecount :: int
  cycle_eta :: int
  current_level_s :: int
  down :: bool
  norms :: residual_norms
  error_abs_old :: "real list"
  error_rel_old :: "real list"
  levels :: "level list"

text \<open>\<open>Laplace1DMG::all\<close>: every flag of the array is true.\<close>

definition all_true :: "bool list \<Rightarrow> bool" where
  "all_true a = list_all (\<lambda>v. v) a"

definition keep_old_errors :: "nat \<Rightarrow> mg_vars \<Rightarrow> mg_vars" where
  "keep_old_errors n v =
     fold (\<lambda>kz v. if \<not> conv (norms v) ! kz
                   then v\<lparr>error_abs_old := (error_abs_old v)[kz := error_abs (norms v) ! kz],
                          error_rel_old := (error_rel_old v)[kz := error_rel (norms v) ! kz]\<rparr>
                   else v)
          [0..<n] v"

text \<open>
  The end of a cycle on level 0. The result says whether
  \<open>calculate_total_residual\<close>, the full convergence check, was called.
\<close>

definition full_check_due :: "'a mg_options_scheme \<Rightarrow> int \<Rightarrow> int \<Rightarrow> bool" where
  "full_check_due opt cyclecnt eta \<longleftrightarrow> cyclecnt < 3 \<or> cyclecnt > eta - 5 \<or> \<not> predict_exit opt"

definition cycle_check ::
  "mg_env \<Rightarrow> 'a mg_options_scheme \<Rightarrow> mg_vars \<Rightarrow> error + (mg_vars \<times> bool)" where
  "cycle_check env opt v =
     (if current_level_s v = 0 \<and> subcount v = max_cycle opt - 1 then
        (let ops = env_ops env;
             v1 = v\<lparr>cyclecount := cyclecount v + 1\<rparr>;
             v2 = (if cyclecount v1 < 3 \<or> cyclecount v1 > cycle_eta v1
                   then keep_old_errors (nmode opt) v1 else v1)
         in bindE (residual_level (env_fuel env) opt (env_fine_error env) 0 (conv (norms v2)) (levels v2))
              (\<lambda>L.
              let v3 = v2\<lparr>levels := L\<rparr> in
              if full_check_due opt (cyclecount v3) (cycle_eta v3) then
                bindE (total_residual_op ops (norms v3) (levels v3)) (\<lambda>(L', e').
                  let v4 = v3\<lparr>levels := L', norms := e'\<rparr>;
                      v5 = (if cyclecount v4 < 3 \<and> predict_exit opt
                            then v4\<lparr>cycle_eta :=
                                      predict_op ops (norms v4) (error_abs_old v4) (error_rel_old v4)\<rparr>
                            else v4)
                  in Inr (v5, True))
              else Inr (v3, False)))
      else Inr (v, False))"

text \<open>The branch after the counters have been incremented.\<close>

definition next_level ::
  "mg_env \<Rightarrow> 'a mg_options_scheme \<Rightarrow> mg_vars \<Rightarrow> error + mg_vars outcome" where
  "next_level env opt v =
     (let ops = env_ops env; cv = conv (norms v); cl = current_level_s v in
      if subcount v < max_cycle opt then Inr (Continue v)
      else if all_true cv \<and> cl = 0 then Inr (Break v)
      else if \<not> down v then
        bindE (refine_op ops cl cv (levels v)) (\<lambda>L1.
        bindE (update_solution_op ops (cl - 1) cv L1) (\<lambda>L2.
        bindE (synchronize_xloc_op ops (cl - 1) cv L2) (\<lambda>L3.
          let v1 = v\<lparr>levels := L3, current_level_s := cl - 1, subcount := 0\<rparr>
          in Inr (Continue (if current_level_s v1 = 0 then v1\<lparr>down := True\<rparr> else v1)))))
      else if down v \<and> max_level opt > 0 then
        bindE (if cl \<noteq> 0
               then residual_level (env_fuel env) opt (env_fine_error env) cl cv (levels v)
               else Inr (levels v)) (\<lambda>L1.
        bindE (synchronize_residual_op ops cl cv L1) (\<lambda>L2.
        bindE (coarsen_op ops (cl + 1) cv L2) (\<lambda>L3.
          let v1 = v\<lparr>levels := L3, current_level_s := cl + 1, subcount := 0\<rparr>
          in Inr (Continue (if current_level_s v1 = max_level opt then v1\<lparr>down := False\<rparr> else v1)))))
      else Inr (Continue (v\<lparr>subcount := 0\<rparr>)))"

text \<open>
  The bound on the iteration count: the check for diagonal dominance on the coarsest
  level, combined over the ranks by a logical-and reduction, decides which error is
  thrown.
\<close>

definition budget_check ::
  "mg_env \<Rightarrow> 'a mg_options_scheme \<Rightarrow> mg_vars \<Rightarrow> error + mg_vars outcome" where
  "budget_check env opt v =
     (if count_s v > maxits opt then
        bindE (diag_dominant_op (env_ops env) (levels v)) (\<lambda>is_dd.
          let global_is_dd = (is_dd \<and> dd_other_ranks (env_ops env))
          in if global_is_dd then Inl Maxits_diag_dominant else Inl Maxits_not_diag_dominant)
      else Inr (Continue v))"

definition mg_iteration ::
  "mg_env \<Rightarrow> 'a mg_options_scheme \<Rightarrow> mg_vars \<Rightarrow> error + (mg_vars outcome \<times> bool)" where
  "mg_iteration env opt v =
     bindE (gauss_seidel_level (env_mesh env) opt (env_fine_error env)
              (current_level_s v) (conv (norms v)) (levels v)) (\<lambda>L.
     bindE (cycle_check env opt (v\<lparr>levels := L\<rparr>)) (\<lambda>(v1, checked).
       let v2 = v1\<lparr>count_s := count_s v1 + 1, subcount := subcount v1 + 1\<rparr>
       in bindE (next_level env opt v2) (\<lambda>oc.
            case oc of
              Break v3 \<Rightarrow> Inr (Break v3, checked)
            | Continue v3 \<Rightarrow> bindE (budget_check env opt v3) (\<lambda>oc'. Inr (oc', checked)))))"

lemma bindE_Inr_iff: "bindE r f = Inr y \<longleftrightarrow> (\<exists>v. r = Inr v \<and> f v = Inr y)"
  by (cases r) (simp_all add: bindE_def)

lemma cycle_check_count: "cycle_check env opt v = Inr (v', c) \<Longrightarrow> count_s v' = count_s v"
proof -
  have k: "count_s (keep_old_errors n w) = count_s w" for n and w :: mg_vars
    unfolding keep_old_errors_def by (induction n) simp_all
  assume "cycle_check env opt v = Inr (v', c)"
  then show ?thesis
    by (auto simp: cycle_check_def Let_def bindE_Inr_iff k split: if_splits)
qed

lemma next_level_count: "next_level env opt v = Inr oc \<Longrightarrow>
    count_s (case oc of Break w \<Rightarrow> w | Continue w \<Rightarrow> w) = count_s v"
  by (auto simp: next_level_def Let_def bindE_Inr_iff split: if_splits)

lemma budget_check_Continue: "budget_check env opt v = Inr oc \<Longrightarrow>
    oc = Continue v \<and> count_s v \<le> maxits opt"
  by (auto simp: budget_check_def Let_def bindE_Inr_iff split: if_splits)

lemma mg_iteration_Continue_count:
  assumes "mg_iteration env opt v = Inr (Continue v', c)"
  shows "count_s v' = count_s v + 1 \<and> count_s v' \<le> maxits opt"
proof -
  from assms obtain L v1 c1 oc where
    cc: "cycle_check env opt (v\<lparr>levels := L\<rparr>) = Inr (v1, c1)" and
    nl: "next_level env opt (v1\<lparr>count_s := count_s v1 + 1, subcount := subcount v1 + 1\<rparr>) = Inr oc" and
    fin: "(case oc of Break v3 \<Rightarrow> Inr (Break v3, c1)
           | Continue v3 \<Rightarrow> bindE (budget_check env opt v3) (\<lambda>oc'. Inr (oc', c1))) = Inr (Continue v', c)"
    by (auto simp: mg_iteration_def Let_def bindE_Inr_iff)
  from fin obtain v3 where oc: "oc = Continue v3" and b: "budget_check env opt v3 = Inr (Continue v')"
    by (cases oc) (auto simp: bindE_Inr_iff)
  from budget_check_Continue [OF b] have v3: "v' = v3" "count_s v3 \<le> maxits opt" by simp_all
  from next_level_count [OF nl] oc have "count_s v3 = count_s v1 + 1" by simp
  moreover from cycle_check_count [OF cc] have "count_s v1 = count_s v" by simp
  ultimately show ?thesis using v3 by simp
qed

text \<open>
  The loop. It ends: the count grows by one in every pass, and a pass that pushes it
  beyond \<open>maxits\<close> either leaves the loop or throws. The result is the state at the
  \<open>break\<close> and whether the pass that left the loop made the full convergence check.
\<close>

function mg_loop ::
  "mg_env \<Rightarrow> 'a mg_options_scheme \<Rightarrow> mg_vars \<Rightarrow> error + (mg_vars \<times> bool)" where
  "mg_loop env opt v =
     (case mg_iteration env opt v of
        Inl e \<Rightarrow> Inl e
      | Inr (Break v', checked) \<Rightarrow> Inr (v', checked)
      | Inr (Continue v', checked) \<Rightarrow> mg_loop env opt v')"
  by pat_completeness auto
termination
  by (relation "measure (\<lambda>(env, opt, v). nat (maxits opt + 1 - count_s v))")
     (auto dest: mg_iteration_Continue_count)

declare mg_loop.simps [simp del]

text \<open>
  The state in which the loop starts: no mode has converged, and every error is the
  constant \<open>initial_error\<close>.
\<close>

definition mg_initial :: "'a mg_options_scheme \<Rightarrow> level list \<Rightarrow> mg_vars" where
  "mg_initial opt L =
     \<lparr>count_s = 0, subcount = 0, cyclecount = 0, cycle_eta = 0, current_level_s = 0, down = True,
      norms = \<lparr>error_abs = replicate (nmode opt) 1000000, error_rel = replicate (nmode opt) 1000000,
               conv = replicate (nmode opt) False\<rparr>,
      error_abs_old = replicate (nmode opt) 1000000, error_rel_old = replicate (nmode opt) 1000000,
      levels = L\<rparr>"

subsection \<open>The ranks of one mode and the assembled system\<close>













subsection \<open>Example data\<close>

text \<open>A first rank with one guard cell on each side and one interior point.\<close>

definition m0 :: mesh where
  "m0 = \<lparr>LocalNx = 3, xstart = 1, xend = 1, firstX = True, lastX = False, periodicX = False,
          NXPE = 2, NYPE = 1, GlobalNx = 6, LocalNz = 4\<rparr>"

text \<open>
  A rank between two others with the same grid, tolerances, the sum of two magnitudes
  without rounding (what the code computes whenever the sum is a double), a relaxation
  whose relation is \<open>x = 1\<close> at both edges, neighbours that send zero and never declare
  convergence, and the states in which the two relaxation loops start on them.
\<close>

definition tol0 :: tolerances where
  "tol0 = \<lparr>rtol = 1 / 10000000, atol = 1 / 100000000000000000000, maxits = 100\<rparr>"

definition m_mid :: mesh where
  "m_mid = \<lparr>LocalNx = 3, xstart = 1, xend = 1, firstX = False, lastX = False, periodicX = False,
          NXPE = 4, NYPE = 1, GlobalNx = 8, LocalNz = 4\<rparr>"

definition exact_sum :: "complex \<Rightarrow> complex \<Rightarrow> real" where
  "exact_sum a b = cmod a + cmod b"

definition cf0 :: coefs where
  "cf0 = \<lparr>al = 0, bl = 0, au = 0, bu = 0, rl = 1, ru = 1\<rparr>"

definition quiet :: halo_msg where
  "quiet = \<lparr>msg_flag = False, msg_value = 0\<rparr>"

definition quiet_array :: halo_array_msg where
  "quiet_array = \<lparr>amsg_flag = False, amsg_values = [0]\<rparr>"

definition s_start :: ipt_state where
  "s_start = ipt_initial m_mid [0, 0, 0, 0] [0, 1, 0]"

definition r_start :: relax_state where
  "r_start = \<lparr>self_in = False, self_out = False, neighbour_in = False, neighbour_out = False,
              count = 0, xk1d = [0, 0, 0], xk1dlast = [0, 0, 0],
              sys = \<lparr>avec = [0, 0, 0], bvec = [1, 1, 1], cvec = [0, 0, 0], bk1d = [0, 1, 0]\<rparr>\<rparr>"

text \<open>
  Multigrid data: a solver with one mode that has not converged, its options, and an
  environment of the loop on the mesh \<open>m0\<close> whose operations do nothing.
\<close>

definition l0 :: mg_solver where
  "l0 = \<lparr>rtol = 1 / 10000000, atol = 1 / 100000000000000000000, maxits = 100,
          nmode = 1, max_level = 0, max_cycle = 3, predict_exit = False,
          converged = [False], fine_error = replicate 4 [0]\<rparr>"

definition opt0 :: mg_options where
  "opt0 = \<lparr>rtol = 1 / 10000000, atol = 1 / 100000000000000000000, maxits = 100,
           nmode = 1, max_level = 0, max_cycle = 1, predict_exit = False\<rparr>"

definition env0 :: mg_env where
  "env0 = \<lparr>env_mesh = m0, env_fuel = 10, env_fine_error = replicate 4 [0],
            env_ops = \<lparr>total_residual_op = (\<lambda>e L. Inr (L, e)),
                        refine_op = (\<lambda>lvl cv L. Inr L), update_solution_op = (\<lambda>lvl cv L. Inr L),
                        synchronize_xloc_op = (\<lambda>lvl cv L. Inr L),
                        synchronize_residual_op = (\<lambda>lvl cv L. Inr L),
                        coarsen_op = (\<lambda>lvl cv L. Inr L), diag_dominant_op = (\<lambda>L. Inr True),
                        dd_other_ranks = True, predict_op = (\<lambda>e ea er. 0)\<rparr>\<rparr>"



















section \<open>Loops over an array\<close>

lemma fold_update_length:
  "length (fold (\<lambda>i x. x[i := f i x]) is xs) = length xs"
  by (induction "is" arbitrary: xs) auto

lemma fold_update_nth:
  assumes "j < length xs"
  shows "fold (\<lambda>i x. x[i := f i (x ! i)]) [0..<n] xs ! j = (if j < n then f j (xs ! j) else xs ! j)"
proof (induction n)
  case 0
  then show ?case by simp
next
  case (Suc n)
  let ?ys = "fold (\<lambda>i x. x[i := f i (x ! i)]) [0..<n] xs"
  have len: "length ?ys = length xs"
    by (rule fold_update_length)
  have "fold (\<lambda>i x. x[i := f i (x ! i)]) [0..<Suc n] xs ! j = (?ys[n := f n (?ys ! n)]) ! j"
    by simp
  also have "\<dots> = (if j = n then f n (?ys ! n) else ?ys ! j)"
    using assms len by (simp add: nth_list_update)
  also have "\<dots> = (if j < Suc n then f j (xs ! j) else xs ! j)"
    using Suc.IH by (auto simp: less_Suc_eq)
  finally show ?case .
qed

lemma fold_set_nth:
  "j < length xs \<Longrightarrow>
   fold (\<lambda>i x. x[i := g i]) [0..<n] xs ! j = (if j < n then g j else xs ! j)"
  using fold_update_nth [where f = "\<lambda>i _. g i"] by simp

lemma fold_add_nth:
  "j < length xs \<Longrightarrow>
   fold (\<lambda>i x. x[i := x ! i + h i]) [0..<n] xs ! j = (if j < n then xs ! j + h j else xs ! j)"
  using fold_update_nth [where f = "\<lambda>i v. v + h i"] by simp

section \<open>Construction of the cyclic-reduction solver\<close>

lemma is_pow2_power: "is_pow2 (2 ^ k)"
proof (induction k)
  case 0
  show ?case by (simp add: is_pow2.simps)
next
  case (Suc k)
  have "(1::int) \<le> 2 ^ k" by simp
  then have "(2::int) * 2 ^ k \<noteq> 1" by linarith
  then have "(2::int) ^ Suc k \<noteq> 1" "\<not> (2::int) ^ Suc k \<le> 0" by simp_all
  then show ?case using Suc
    by (subst is_pow2.simps) simp
qed

lemma is_pow2_imp_power: "is_pow2 x \<Longrightarrow> \<exists>k::nat. x = 2 ^ k"
proof (induction x rule: is_pow2.induct)
  case (1 x)
  show ?case
  proof (cases "x = 1")
    case True
    then have "x = 2 ^ (0::nat)" by simp
    then show ?thesis by blast
  next
    case False
    from "1.prems" have pos: "\<not> x \<le> 0"
      by (subst (asm) is_pow2.simps) (simp split: if_splits)
    from "1.prems" False pos have ev: "even x" and rec: "is_pow2 (x div 2)"
      by (subst (asm) is_pow2.simps, simp)+
    from "1.IH" [OF pos False rec] obtain k :: nat where k: "x div 2 = 2 ^ k" by blast
    from ev k have "x = 2 ^ Suc k" by auto
    then show ?thesis by blast
  qed
qed

lemma is_pow2_iff: "is_pow2 x \<longleftrightarrow> (\<exists>k::nat. x = 2 ^ k)"
  using is_pow2_power is_pow2_imp_power by blast

text \<open>
  C5: when the cyclic-reduction solver is constructed with a number of x ranks that is
  not a power of two, or with a number of y ranks other than one, the constructor throws
  (the first failed check decides which error), so no solver exists to call \<open>solve\<close> on.
\<close>

theorem LaplacePCR_rejects:
  assumes "(\<forall>k::nat. NXPE m \<noteq> 2 ^ k) \<or> NYPE m \<noteq> 1"
  shows "LaplacePCR opt m = Inl (if \<not> is_pow2 (NXPE m) then NXPE_not_pow2 else NYPE_not_one)"
proof (cases "is_pow2 (NXPE m)")
  case True
  with assms have "NYPE m \<noteq> 1"
    by (auto simp: is_pow2_iff)
  with True show ?thesis
    by (simp add: LaplacePCR_def Let_def)
next
  case False
  then show ?thesis
    by (simp add: LaplacePCR_def Let_def)
qed

theorem LaplacePCR_rejects_witness:
  "LaplacePCR \<lparr>dst = False, maxmode = 3\<rparr>
     \<lparr>LocalNx = 6, xstart = 2, xend = 3, firstX = True, lastX = False, periodicX = False,
      NXPE = 3, NYPE = 1, GlobalNx = 20, LocalNz = 8\<rparr> = Inl NXPE_not_pow2
   \<and> LaplacePCR \<lparr>dst = False, maxmode = 3\<rparr>
     \<lparr>LocalNx = 6, xstart = 2, xend = 3, firstX = True, lastX = False, periodicX = False,
      NXPE = 4, NYPE = 2, GlobalNx = 20, LocalNz = 8\<rparr> = Inl NYPE_not_one"
proof -
  have np: "\<not> is_pow2 3" by (simp add: is_pow2.simps)
  then have h1: "(\<forall>k::nat. (3::int) \<noteq> 2 ^ k) \<or> (1::int) \<noteq> 1"
    by (simp add: is_pow2_iff)
  have p4: "is_pow2 4" by (simp add: is_pow2.simps)
  have h2: "(\<forall>k::nat. (4::int) \<noteq> 2 ^ k) \<or> (2::int) \<noteq> 1" by simp
  show ?thesis
    using LaplacePCR_rejects [of "\<lparr>LocalNx = 6, xstart = 2, xend = 3, firstX = True, lastX = False,
        periodicX = False, NXPE = 3, NYPE = 1, GlobalNx = 20, LocalNz = 8\<rparr>" "\<lparr>dst = False, maxmode = 3\<rparr>"]
      LaplacePCR_rejects [of "\<lparr>LocalNx = 6, xstart = 2, xend = 3, firstX = True, lastX = False,
        periodicX = False, NXPE = 4, NYPE = 2, GlobalNx = 20, LocalNz = 8\<rparr>" "\<lparr>dst = False, maxmode = 3\<rparr>"]
      h1 h2 np p4
    by simp
qed

section \<open>Reconstruction of the local solution\<close>

lemma reconstruct_length: "length (reconstruct m minvb gv xlast x) = length x"
  by (simp add: reconstruct_def Let_def fold_update_length)

lemma reconstruct_nth:
  assumes "i < length x" "i < LocalNx m"
  shows "reconstruct m minvb gv xlast x ! i =
    (let v1 = minvb ! i;
         v2 = (if \<not> lastX m then v1 + upperGuardVector gv ! i * xlast ! (xend m + 1) else v1)
     in if \<not> firstX m then v2 + lowerGuardVector gv ! i * xlast ! (xstart m - 1) else v2)"
  using assms
  by (simp add: reconstruct_def Let_def fold_set_nth fold_add_nth fold_update_length)

lemma reconstruct_nth_beyond:
  assumes "i < length x" "\<not> i < LocalNx m"
  shows "reconstruct m minvb gv xlast x ! i = x ! i"
  using assms
  by (simp add: reconstruct_def Let_def fold_set_nth fold_add_nth fold_update_length)

lemma find_edge_update_vectors_zero:
  assumes "find_edge_update_vectors first_call store_coefficients m a b c gv0 = Inr gv"
    and "first_call \<or> \<not> store_coefficients \<or> gv_boundary_zero m gv0"
    and "length (lowerGuardVector gv0) = LocalNx m" "length (upperGuardVector gv0) = LocalNx m"
  shows "gv_boundary_zero m gv"
proof (cases "first_call \<or> \<not> store_coefficients")
  case False
  with assms show ?thesis
    by (simp add: find_edge_update_vectors_def)
next
  case True
  have low: "firstX m \<Longrightarrow> lowerGuardVector gv = fold (\<lambda>i l. l[i := 0]) [0..<LocalNx m] (lowerGuardVector gv0)"
    using assms(1) True
    by (auto simp: find_edge_update_vectors_def Let_def split: sum.splits if_splits)
  have up: "lastX m \<Longrightarrow> upperGuardVector gv = fold (\<lambda>i l. l[i := 0]) [0..<LocalNx m] (upperGuardVector gv0)"
    using assms(1) True
    by (auto simp: find_edge_update_vectors_def Let_def split: sum.splits if_splits)
  show ?thesis
    unfolding gv_boundary_zero_def
    using low up assms(3,4) by (simp add: fold_set_nth)
qed

text \<open>
  C2: with the guard vectors as the solver stores them, the reconstructed value at every
  local index is the particular solution plus the lower guard vector times the halo value
  at \<open>xstart - 1\<close> plus the upper guard vector times the halo value at \<open>xend + 1\<close>; on
  the first rank the lower guard vector is zero and its term is absent, on the last rank
  the upper one.
\<close>

theorem reconstruct_formula:
  assumes "find_edge_update_vectors first_call store_coefficients m a b c gv0 = Inr gv"
    and "first_call \<or> \<not> store_coefficients \<or> gv_boundary_zero m gv0"
    and "length (lowerGuardVector gv0) = LocalNx m" "length (upperGuardVector gv0) = LocalNx m"
    and "length x = LocalNx m" and "i < LocalNx m"
  shows "reconstruct m minvb gv xlast x ! i =
           minvb ! i + lowerGuardVector gv ! i * xlast ! (xstart m - 1)
                     + upperGuardVector gv ! i * xlast ! (xend m + 1)
       \<and> (firstX m \<longrightarrow> lowerGuardVector gv ! i = 0 \<and>
            reconstruct m minvb gv xlast x ! i =
              minvb ! i + upperGuardVector gv ! i * xlast ! (xend m + 1))
       \<and> (lastX m \<longrightarrow> upperGuardVector gv ! i = 0 \<and>
            reconstruct m minvb gv xlast x ! i =
              minvb ! i + lowerGuardVector gv ! i * xlast ! (xstart m - 1))"
proof -
  have z: "gv_boundary_zero m gv"
    using assms(1-4) by (rule find_edge_update_vectors_zero)
  have lo: "firstX m \<Longrightarrow> lowerGuardVector gv ! i = 0"
    and up: "lastX m \<Longrightarrow> upperGuardVector gv ! i = 0"
    using z assms(6) by (simp_all add: gv_boundary_zero_def)
  have r: "reconstruct m minvb gv xlast x ! i =
    (let v1 = minvb ! i;
         v2 = (if \<not> lastX m then v1 + upperGuardVector gv ! i * xlast ! (xend m + 1) else v1)
     in if \<not> firstX m then v2 + lowerGuardVector gv ! i * xlast ! (xstart m - 1) else v2)"
    using assms(5,6) by (simp add: reconstruct_nth)
  show ?thesis
    using lo up by (cases "firstX m"; cases "lastX m") (simp_all add: r Let_def)
qed

theorem reconstruct_idempotent:
  "reconstruct m minvb gv xlast (reconstruct m minvb gv xlast x)
     = reconstruct m minvb gv xlast x"
proof (rule nth_equalityI)
  show "length (reconstruct m minvb gv xlast (reconstruct m minvb gv xlast x)) =
    length (reconstruct m minvb gv xlast x)"
    by (simp add: reconstruct_length)
next
  fix i
  assume "i < length (reconstruct m minvb gv xlast (reconstruct m minvb gv xlast x))"
  then have i: "i < length x"
    by (simp add: reconstruct_length)
  show "reconstruct m minvb gv xlast (reconstruct m minvb gv xlast x) ! i =
    reconstruct m minvb gv xlast x ! i"
  proof (cases "i < LocalNx m")
    case True
    with i show ?thesis
      by (simp add: reconstruct_nth reconstruct_length)
  next
    case False
    with i show ?thesis
      by (simp add: reconstruct_nth_beyond reconstruct_length)
  qed
qed


text \<open>
  C8: reconstructing again from the same halo values, particular solution and guard
  vectors gives the identical array, whatever the array held before, for any number type:
  the loops read nothing else.
\<close>

theorem reconstruct_twice:
  "reconstruct m minvb gv xlast (reconstruct m minvb gv xlast x) = reconstruct m minvb gv xlast x
   \<and> (length x = LocalNx m \<and> length x' = LocalNx m \<longrightarrow>
        reconstruct m minvb gv xlast x' = reconstruct m minvb gv xlast x)"
proof
  show "reconstruct m minvb gv xlast (reconstruct m minvb gv xlast x) = reconstruct m minvb gv xlast x"
    by (rule reconstruct_idempotent)
next
  show "length x = LocalNx m \<and> length x' = LocalNx m \<longrightarrow>
        reconstruct m minvb gv xlast x' = reconstruct m minvb gv xlast x"
  proof
    assume len: "length x = LocalNx m \<and> length x' = LocalNx m"
    show "reconstruct m minvb gv xlast x' = reconstruct m minvb gv xlast x"
    proof (rule nth_equalityI)
      show "length (reconstruct m minvb gv xlast x') = length (reconstruct m minvb gv xlast x)"
        using len by (simp add: reconstruct_length)
    next
      fix i
      assume "i < length (reconstruct m minvb gv xlast x')"
      then have "i < LocalNx m" using len by (simp add: reconstruct_length)
      then show "reconstruct m minvb gv xlast x' ! i = reconstruct m minvb gv xlast x ! i"
        using len by (simp add: reconstruct_nth)
    qed
  qed
qed

theorem reconstruct_twice_witness:
  "reconstruct m0 [1, 2, 3 :: complex] \<lparr>lowerGuardVector = [0, 0, 0], upperGuardVector = [0, 1 / 2, 1]\<rparr>
      [0, 0, 4]
      (reconstruct m0 [1, 2, 3] \<lparr>lowerGuardVector = [0, 0, 0], upperGuardVector = [0, 1 / 2, 1]\<rparr>
         [0, 0, 4] [9, 9, 9])
    = reconstruct m0 [1, 2, 3] \<lparr>lowerGuardVector = [0, 0, 0], upperGuardVector = [0, 1 / 2, 1]\<rparr>
         [0, 0, 4] [9, 9, 9]
  \<and> reconstruct m0 [1, 2, 3 :: complex] \<lparr>lowerGuardVector = [0, 0, 0], upperGuardVector = [0, 1 / 2, 1]\<rparr>
         [0, 0, 4] [5, 6, 7]
    = reconstruct m0 [1, 2, 3] \<lparr>lowerGuardVector = [0, 0, 0], upperGuardVector = [0, 1 / 2, 1]\<rparr>
         [0, 0, 4] [9, 9, 9]
  \<and> reconstruct m0 [1, 2, 3 :: complex] \<lparr>lowerGuardVector = [0, 0, 0], upperGuardVector = [0, 1 / 2, 1]\<rparr>
         [0, 0, 4] [9, 9, 9] = [1, 4, 7]"
  using reconstruct_twice [of m0 "[1, 2, 3 :: complex]"
      "\<lparr>lowerGuardVector = [0, 0, 0], upperGuardVector = [0, 1 / 2, 1]\<rparr>" "[0, 0, 4]" "[9, 9, 9]" "[5, 6, 7]"]
  by (simp add: m0_def reconstruct_def upt_rec numeral_3_eq_3)

theorem reconstruct_formula_witness:
  "find_edge_update_vectors True True m0 [0, 1, 0] [1, - 2, 1] [0, 1, 0]
       \<lparr>lowerGuardVector = [7, 7, 7], upperGuardVector = [7, 7, 7]\<rparr>
     = Inr \<lparr>lowerGuardVector = [0, 0, 0], upperGuardVector = [0, 1 / 2, 1]\<rparr>
   \<and> reconstruct m0 [1, 2, 3 :: complex] \<lparr>lowerGuardVector = [0, 0, 0], upperGuardVector = [0, 1 / 2, 1]\<rparr>
         [0, 0, 4] [9, 9, 9] ! 1 = 2 + 0 * 0 + 1 / 2 * 4
   \<and> firstX m0
   \<and> lowerGuardVector \<lparr>lowerGuardVector = [0, 0, 0 :: complex], upperGuardVector = [0, 1 / 2, 1]\<rparr> ! 1 = 0
   \<and> reconstruct m0 [1, 2, 3 :: complex] \<lparr>lowerGuardVector = [0, 0, 0], upperGuardVector = [0, 1 / 2, 1]\<rparr>
         [0, 0, 4] [9, 9, 9] ! 1 = 2 + 1 / 2 * 4"
proof -
  have gv: "find_edge_update_vectors True True m0 [0, 1, 0] [1, - 2, 1] [0, 1, 0]
       \<lparr>lowerGuardVector = [7, 7, 7], upperGuardVector = [7, 7, 7]\<rparr>
     = Inr \<lparr>lowerGuardVector = [0, 0, 0], upperGuardVector = [0, 1 / 2, 1]\<rparr>"
    by (simp add: m0_def find_edge_update_vectors_def tridag_def evec_def upt_rec
          numeral_2_eq_2 numeral_3_eq_3)
  have fx: "firstX m0" by (simp add: m0_def)
  show ?thesis
    using gv fx
      reconstruct_formula [OF gv, of "[9, 9, 9]" 1 "[1, 2, 3]" "[0, 0, 4]"]
    by (simp add: m0_def)
qed


section \<open>The multigrid level routines and the iteration loops\<close>

lemma gs_point_0: "gs_point lv 0 kz = Inl IndexOutOfRange"
  by (simp add: gs_point_def bindE_def mat_get_def split: sum.splits)

lemma steps_Cons: "i < n \<Longrightarrow> 0 < d \<Longrightarrow> steps i n d = i # steps (i + d) n d"
  by (subst steps.simps) simp

lemma even_sweep_mode_fails:
  "0 < nx \<Longrightarrow> for_each (steps 0 nx 2) (\<lambda>ix lv. gs_point lv ix kz) lv = Inl IndexOutOfRange"
  by (simp add: steps_Cons gs_point_0)

lemma even_sweep_fails:
  assumes "0 < LocalNx m" "k \<le> kz0" "kz0 < int (nmode l)" "\<not> converged l ! nat kz0"
  shows "for_each (steps k (int (nmode l)) 1)
        (\<lambda>kz lv. if \<not> converged l ! nat kz
                  then for_each (steps 0 (int (LocalNx m)) 2) (\<lambda>ix lv. gs_point lv ix kz) lv
                  else Inr lv) lv = Inl IndexOutOfRange"
  using assms(2)
proof (induction "nat (kz0 - k)" arbitrary: k)
  case 0
  then have "k = kz0" by simp
  moreover from assms(3) have "steps kz0 (int (nmode l)) 1 = kz0 # steps (kz0 + 1) (int (nmode l)) 1"
    by (simp add: steps_Cons)
  ultimately show ?case
    using assms(1,4) by (simp add: even_sweep_mode_fails)
next
  case (Suc d)
  then have k: "k < kz0" "nat (kz0 - (k + 1)) = d" "k + 1 \<le> kz0" by linarith+
  with assms(3) have "k < int (nmode l)" by simp
  then have st: "steps k (int (nmode l)) 1 = k # steps (k + 1) (int (nmode l)) 1"
    by (simp add: steps_Cons)
  show ?case
    using Suc.hyps(1) [of "k + 1"] k assms(1)
    by (simp add: st even_sweep_mode_fails)
qed

theorem gauss_seidel_out_of_range:
  assumes "included lv" "0 < LocalNx m" "kz0 < nmode l" "\<not> converged l ! kz0"
  shows "gauss_seidel_red_black_local m l lv = Inl IndexOutOfRange"
proof -
  have "gs_sweep 0 m l lv = Inl IndexOutOfRange"
    unfolding gs_sweep_def Let_def
    using even_sweep_fails [of m 0 "int kz0" l lv] assms by simp
  then show ?thesis
    using assms(1) by (simp add: gauss_seidel_red_black_local_def bindE_def)
qed

text \<open>
  C10 at the smallest input: one mode that has not converged, a local grid of three points,
  the level as \<open>Level::init\<close> allocates it. The even sweep starts at \<open>ix = 0\<close> and reads
  \<open>xloc(ix - 1, kz)\<close>, index \<open>-1\<close>, outside the \<open>LocalNx + 2\<close> rows of \<open>xloc\<close>.
\<close>

theorem gauss_seidel_reads_before_xloc:
  "mat_get (xloc (init_level0 m0 l0)) (0 - 1) 0 = Inl IndexOutOfRange
   \<and> length (xloc (init_level0 m0 l0)) = LocalNx m0 + 2
   \<and> gauss_seidel_red_black_local m0 l0 (init_level0 m0 l0) = Inl IndexOutOfRange"
proof -
  have "gauss_seidel_red_black_local m0 l0 (init_level0 m0 l0) = Inl IndexOutOfRange"
    by (rule gauss_seidel_out_of_range [where ?kz0.0 = 0]) (simp_all add: init_level0_def m0_def l0_def)
  then show ?thesis
    by (simp add: mat_get_def init_level0_def)
qed

lemma residual_xloop_stuck:
  "ix < n \<Longrightarrow> residual_xloop fuel body n ix kz lv \<noteq> Some (Inr r)"
  by (induction fuel arbitrary: kz lv) (auto split: sum.splits)

lemma residual_kzloop_stuck:
  assumes "kz \<le> kz0" "kz0 < n" "\<not> cv ! nat kz0" "0 < n"
  shows "residual_kzloop fuel body n cv kz lv \<noteq> Some (Inr r)"
  using assms(1)
proof (induction fuel arbitrary: kz)
  case 0
  show ?case by simp
next
  case (Suc fuel)
  from Suc.prems assms(2) have kz: "kz < n" by simp
  show ?case
  proof (cases "cv ! nat kz")
    case True
    with assms(3) Suc.prems have "kz + 1 \<le> kz0"
      by (cases "kz = kz0") auto
    from Suc.IH [OF this] True kz show ?thesis by simp
  next
    case False
    have "residual_xloop fuel body n 0 kz lv \<noteq> Some (Inr q)" for q
      using assms(4) by (rule residual_xloop_stuck)
    with kz False show ?thesis
      by (auto split: option.splits sum.splits)
  qed
qed

lemma residual_xloop_None:
  "ix < n \<Longrightarrow> (\<And>i k s. \<exists>s'. body i k s = Inr s') \<Longrightarrow> residual_xloop fuel body n ix kz lv = None"
proof (induction fuel arbitrary: kz lv)
  case 0
  show ?case by simp
next
  case (Suc fuel)
  from Suc.prems(2) obtain s' where "body ix kz lv = Inr s'" by blast
  with Suc show ?case by simp
qed

lemma first_sweep_fails:
  assumes "included lv" "0 < LocalNx m" "0 < nmode opt"
  shows "gauss_seidel_red_black_local m (solver_of opt (replicate (nmode opt) False) fe) lv
           = Inl IndexOutOfRange"
proof -
  let ?l = "solver_of opt (replicate (nmode opt) False) fe"
  have l: "nmode ?l = nmode opt" "\<not> converged ?l ! nat 0"
    using assms(3) by (simp_all add: solver_of_def)
  have "gs_sweep 0 m ?l lv = Inl IndexOutOfRange"
    unfolding gs_sweep_def Let_def
    using even_sweep_fails [of m 0 0 ?l lv] assms(2,3) l by simp
  then show ?thesis
    using assms(1) by (simp add: gauss_seidel_red_black_local_def bindE_def)
qed

lemma first_pass_fails:
  assumes "0 < LocalNx (env_mesh env)" "0 < nmode opt" "L \<noteq> []" "included (L ! 0)"
  shows "mg_iteration env opt (mg_initial opt L) = Inl IndexOutOfRange"
proof -
  from assms(3) have "0 < length L" by simp
  then have "gauss_seidel_level (env_mesh env) opt (env_fine_error env) 0
      (replicate (nmode opt) False) L = Inl IndexOutOfRange"
    using first_sweep_fails [OF assms(4,1,2)]
    by (simp add: gauss_seidel_level_def level_op_def bindE_def)
  then show ?thesis
    by (simp add: mg_iteration_def mg_initial_def bindE_def)
qed

text \<open>
  C7: in this version of \<open>Laplace1DMG::solve\<close> no cycle of the loop ends. When the
  solver has at least one mode and the local grid is not empty, the first statement of
  the first pass, the Gauss-Seidel sweep on level 0, reads outside \<open>xloc\<close> (the defect
  of C10) whatever the other level routines do, so the loop is left by that failure
  before any full convergence check is made.
\<close>

theorem solve_fails_before_full_check:
  assumes "0 < LocalNx (env_mesh env)" "0 < nmode opt" "L \<noteq> []" "included (L ! 0)"
  shows "mg_iteration env opt (mg_initial opt L) = Inl IndexOutOfRange
       \<and> mg_loop env opt (mg_initial opt L) = Inl IndexOutOfRange"
proof -
  have it: "mg_iteration env opt (mg_initial opt L) = Inl IndexOutOfRange"
    using assms by (rule first_pass_fails)
  then have "mg_loop env opt (mg_initial opt L) = Inl IndexOutOfRange"
    by (subst mg_loop.simps) simp
  with it show ?thesis by simp
qed

theorem solve_fails_before_full_check_witness:
  "0 < LocalNx (env_mesh env0) \<and> 0 < nmode opt0 \<and> [init_level0 m0 l0] \<noteq> []
   \<and> included ([init_level0 m0 l0] ! 0)
   \<and> mg_iteration env0 opt0 (mg_initial opt0 [init_level0 m0 l0]) = Inl IndexOutOfRange
   \<and> mg_loop env0 opt0 (mg_initial opt0 [init_level0 m0 l0]) = Inl IndexOutOfRange"
proof -
  have h: "0 < LocalNx (env_mesh env0)" "0 < nmode opt0" "[init_level0 m0 l0] \<noteq> []"
    "included ([init_level0 m0 l0] ! 0)"
    by (simp_all add: env0_def m0_def opt0_def init_level0_def)
  from h solve_fails_before_full_check [OF h] show ?thesis by simp
qed

lemma ipt_finish_Break: "ipt_finish abs_sum tol cf s = Inr (Break s') \<Longrightarrow> s' = s \<and> self_in s \<and> self_out s"
  by (auto simp: ipt_finish_def Let_def split: if_splits)

lemma ipt_iteration_Break: "ipt_iteration abs_sum tol nm cf ri ro s = Inr (Break s', sent) \<Longrightarrow> self_in s' \<and> self_out s'"
  by (auto simp: ipt_iteration_def Let_def split: prod.splits sum.splits dest: ipt_finish_Break)

lemma ipt_loop_flags:
  assumes "ipt_loop abs_sum tol nm cf ri ro s = Inr s'"
  shows "self_in s' \<and> self_out s'"
  using assms
proof (induction abs_sum tol nm cf ri ro s rule: ipt_loop.induct)
  case (1 abs_sum tol nm cf ri ro s)
  from "1.prems" obtain oc sent where it: "ipt_iteration abs_sum tol nm cf (ri (count s)) (ro (count s)) s = Inr (oc, sent)"
    by (subst (asm) ipt_loop.simps) (auto split: sum.splits)
  show ?case
  proof (cases oc)
    case (Break w)
    with it "1.prems" have "w = s'"
      by (subst (asm) ipt_loop.simps) simp
    with it Break ipt_iteration_Break [of abs_sum tol nm cf _ _ s s' sent] show ?thesis by simp
  next
    case (Continue w)
    with it "1.prems" have loop: "ipt_loop abs_sum tol nm cf ri ro w = Inr s'"
      by (subst (asm) ipt_loop.simps) simp
    from "1.IH" [OF it refl Continue loop] show ?thesis .
  qed
qed

lemma ipt_pass1: "ipt_iteration exact_sum tol0 False cf0 quiet quiet s_start =
   Inr (Continue (s_start\<lparr>count := 1, ipt_xloc := [0, 1, 1, 0]\<rparr>),
        \<lparr>sent_in = Some \<lparr>msg_flag = False, msg_value = 1\<rparr>,
         sent_out = Some \<lparr>msg_flag = False, msg_value = 1\<rparr>\<rparr>)"
  by (simp add: ipt_iteration_def ipt_update_def ipt_set_flags_def ipt_communicate_def ipt_finish_def
        s_start_def ipt_initial_def m_mid_def cf0_def tol0_def quiet_def Let_def)

lemma within0: "edges_within_tolerance tol0 [0, 1, 1, 0] [0, 1, 1, 0]"
  by (simp add: edges_within_tolerance_def get_errors_def tol0_def Let_def)

lemma ipt_pass2: "ipt_iteration exact_sum tol0 False cf0 quiet quiet (s_start\<lparr>count := 1, ipt_xloc := [0, 1, 1, 0]\<rparr>) =
   Inr (Break (s_start\<lparr>count := 1, ipt_xloc := [0, 1, 1, 0], self_in := True, self_out := True\<rparr>),
        \<lparr>sent_in = Some \<lparr>msg_flag = True, msg_value = 1\<rparr>,
         sent_out = Some \<lparr>msg_flag = True, msg_value = 1\<rparr>\<rparr>)"
  using within0
  by (simp add: ipt_iteration_def ipt_update_def ipt_set_flags_def ipt_communicate_def ipt_finish_def
        s_start_def ipt_initial_def m_mid_def cf0_def quiet_def Let_def)

lemma ipt_loop_example:
  "ipt_loop exact_sum tol0 False cf0 (\<lambda>k. quiet) (\<lambda>k. quiet) s_start =
     Inr (s_start\<lparr>count := 1, ipt_xloc := [0, 1, 1, 0], self_in := True, self_out := True\<rparr>)"
proof -
  have "ipt_loop exact_sum tol0 False cf0 (\<lambda>k. quiet) (\<lambda>k. quiet) s_start =
      ipt_loop exact_sum tol0 False cf0 (\<lambda>k. quiet) (\<lambda>k. quiet) (s_start\<lparr>count := 1, ipt_xloc := [0, 1, 1, 0]\<rparr>)"
    by (subst ipt_loop.simps) (simp add: ipt_pass1)
  also have "\<dots> = Inr (s_start\<lparr>count := 1, ipt_xloc := [0, 1, 1, 0], self_in := True, self_out := True\<rparr>)"
    by (subst ipt_loop.simps) (simp add: ipt_pass2)
  finally show ?thesis .
qed


text \<open>
  C4 as stated fails: in the first pass (\<open>count = 0\<close>) the errors at both edges are
  below the tolerances and the flags stay unset.
\<close>

theorem tolerance_met_not_marked:
  "count (ipt_update cf0 s_start) = 0
   \<and> edges_within_tolerance tol0 (ipt_xloc (ipt_update cf0 s_start)) (ipt_xloclast (ipt_update cf0 s_start))
   \<and> \<not> self_in (ipt_set_flags tol0 (ipt_update cf0 s_start))
   \<and> \<not> self_out (ipt_set_flags tol0 (ipt_update cf0 s_start))"
proof -
  have u: "ipt_update cf0 s_start = s_start\<lparr>ipt_xloc := [0, 1, 1, 0]\<rparr>"
    by (simp add: ipt_update_def s_start_def ipt_initial_def m_mid_def cf0_def Let_def)
  show ?thesis
    unfolding u using within0
    by (simp add: ipt_set_flags_def s_start_def ipt_initial_def m_mid_def)
qed

lemma ipt_communicate_sent:
  "ipt_communicate nm ri ro s = (s1, sent) \<Longrightarrow>
     self_in s1 = self_in s \<and> self_out s1 = self_out s
     \<and> neighbour_in s1 = (neighbour_in s \<or> msg_flag ri)
     \<and> neighbour_out s1 = (neighbour_out s \<or> msg_flag ro)
     \<and> ipt_xloc s1 ! 1 = ipt_xloc s ! 1 \<and> ipt_xloc s1 ! 2 = ipt_xloc s ! 2
     \<and> sent_in sent = (if neighbour_in s then None
          else Some \<lparr>msg_flag = self_in s, msg_value = (if nm then ipt_xloc s ! 2 else ipt_xloc s ! 1)\<rparr>)
     \<and> sent_out sent = (if neighbour_out s then None
          else Some \<lparr>msg_flag = self_out s, msg_value = (if nm then ipt_xloc s ! 1 else ipt_xloc s ! 2)\<rparr>)"
  by (auto simp: ipt_communicate_def Let_def split: if_splits)

lemma ipt_set_flags_fields:
  "self_in (ipt_set_flags tol s) = (self_in s \<or> (count s > 0 \<and> edges_within_tolerance tol (ipt_xloc s) (ipt_xloclast s)))
   \<and> self_out (ipt_set_flags tol s) = (self_out s \<or> (count s > 0 \<and> edges_within_tolerance tol (ipt_xloc s) (ipt_xloclast s)))
   \<and> neighbour_in (ipt_set_flags tol s) = neighbour_in s
   \<and> neighbour_out (ipt_set_flags tol s) = neighbour_out s
   \<and> ipt_xloc (ipt_set_flags tol s) = ipt_xloc s"
  by (auto simp: ipt_set_flags_def)

lemma ipt_update_fields:
  "self_in (ipt_update cf s) = self_in s \<and> self_out (ipt_update cf s) = self_out s
   \<and> neighbour_in (ipt_update cf s) = neighbour_in s \<and> neighbour_out (ipt_update cf s) = neighbour_out s
   \<and> count (ipt_update cf s) = count s \<and> ipt_xloclast (ipt_update cf s) = ipt_xloclast s"
  by (simp add: ipt_update_def Let_def)

lemma ipt_finish_outcome:
  "ipt_finish abs_sum tol cf s = Inr oc \<Longrightarrow>
     (is_Break oc \<longleftrightarrow> self_in s \<and> self_out s)
     \<and> (is_Break oc \<longrightarrow> outcome_state oc = s)
     \<and> (\<not> is_Break oc \<longrightarrow> self_in (outcome_state oc) = (self_in s \<or> neighbour_in s)
            \<and> self_out (outcome_state oc) = (self_out s \<or> neighbour_out s))"
  by (auto simp: ipt_finish_def Let_def split: if_splits)

lemma ipt_iteration_parts:
  assumes "ipt_iteration abs_sum tol nm cf ri ro s = Inr (oc, sent)"
  obtains s1 where
    "ipt_communicate nm ri ro (ipt_set_flags tol (ipt_update cf s)) = (s1, sent)"
    "ipt_finish abs_sum tol cf s1 = Inr oc"
  using assms
  by (auto simp: ipt_iteration_def Let_def split: prod.splits sum.splits)



text \<open>
  C4 as amended, for the final \<open>LaplaceParallelTri::solve\<close>: a pass sets the rank's flags
  exactly when they were set or the count is positive and the tolerance test holds at
  the lower and at the upper edge, where the test at an edge is
  \<open>error_rel < rtol or error_abs < atol\<close>; a pass in which the test holds with a positive
  count leaves the loop with the two edge values it computed, so they are not updated
  again.
\<close>

theorem converged_marking:
  "self_in (ipt_set_flags tol s) =
      (self_in s \<or> (count s > 0 \<and> edges_within_tolerance tol (ipt_xloc s) (ipt_xloclast s)))
   \<and> self_out (ipt_set_flags tol s) =
      (self_out s \<or> (count s > 0 \<and> edges_within_tolerance tol (ipt_xloc s) (ipt_xloclast s)))
   \<and> (edges_within_tolerance tol x xl \<longleftrightarrow>
        (fst (get_errors (x ! 1) (xl ! 1)) < rtol tol \<or> snd (get_errors (x ! 1) (xl ! 1)) < atol tol)
      \<and> (fst (get_errors (x ! 2) (xl ! 2)) < rtol tol \<or> snd (get_errors (x ! 2) (xl ! 2)) < atol tol))
   \<and> (count s > 0 \<and> edges_within_tolerance tol (ipt_xloc (ipt_update cf s)) (ipt_xloclast s)
        \<and> ipt_iteration abs_sum tol nm cf ri ro s = Inr (oc, sent)
      \<longrightarrow> is_Break oc \<and> ipt_xloc (outcome_state oc) ! 1 = ipt_xloc (ipt_update cf s) ! 1
                     \<and> ipt_xloc (outcome_state oc) ! 2 = ipt_xloc (ipt_update cf s) ! 2)"
proof (intro conjI impI)
  show "self_in (ipt_set_flags tol s) =
      (self_in s \<or> (count s > 0 \<and> edges_within_tolerance tol (ipt_xloc s) (ipt_xloclast s)))"
    "self_out (ipt_set_flags tol s) =
      (self_out s \<or> (count s > 0 \<and> edges_within_tolerance tol (ipt_xloc s) (ipt_xloclast s)))"
    by (simp_all add: ipt_set_flags_fields)
  show "edges_within_tolerance tol x xl \<longleftrightarrow>
        (fst (get_errors (x ! 1) (xl ! 1)) < rtol tol \<or> snd (get_errors (x ! 1) (xl ! 1)) < atol tol)
      \<and> (fst (get_errors (x ! 2) (xl ! 2)) < rtol tol \<or> snd (get_errors (x ! 2) (xl ! 2)) < atol tol)"
    by (simp add: edges_within_tolerance_def Let_def split: prod.splits)
next
  assume a: "count s > 0 \<and> edges_within_tolerance tol (ipt_xloc (ipt_update cf s)) (ipt_xloclast s)
        \<and> ipt_iteration abs_sum tol nm cf ri ro s = Inr (oc, sent)"
  then obtain s1 where c: "ipt_communicate nm ri ro (ipt_set_flags tol (ipt_update cf s)) = (s1, sent)"
    and f: "ipt_finish abs_sum tol cf s1 = Inr oc"
    using ipt_iteration_parts by blast
  note c1 = ipt_communicate_sent [OF c]
  note f1 = ipt_finish_outcome [OF f]
  from a c1 f1 show "is_Break oc"
    by (simp add: ipt_set_flags_fields ipt_update_fields)
  with a c1 f1 show "ipt_xloc (outcome_state oc) ! 1 = ipt_xloc (ipt_update cf s) ! 1"
    "ipt_xloc (outcome_state oc) ! 2 = ipt_xloc (ipt_update cf s) ! 2"
    by (simp_all add: ipt_set_flags_fields ipt_update_fields)
qed

theorem converged_marking_witness:
  "count (s_start\<lparr>count := 1, ipt_xloc := [0, 1, 1, 0]\<rparr>) > 0
   \<and> edges_within_tolerance tol0 (ipt_xloc (ipt_update cf0 (s_start\<lparr>count := 1, ipt_xloc := [0, 1, 1, 0]\<rparr>)))
        (ipt_xloclast (s_start\<lparr>count := 1, ipt_xloc := [0, 1, 1, 0]\<rparr>))
   \<and> ipt_iteration exact_sum tol0 False cf0 quiet quiet (s_start\<lparr>count := 1, ipt_xloc := [0, 1, 1, 0]\<rparr>) =
     Inr (Break (s_start\<lparr>count := 1, ipt_xloc := [0, 1, 1, 0], self_in := True, self_out := True\<rparr>),
          \<lparr>sent_in = Some \<lparr>msg_flag = True, msg_value = 1\<rparr>,
           sent_out = Some \<lparr>msg_flag = True, msg_value = 1\<rparr>\<rparr>)
   \<and> is_Break (Break (s_start\<lparr>count := 1, ipt_xloc := [0, 1, 1, 0], self_in := True, self_out := True\<rparr>))
   \<and> ipt_xloc (s_start\<lparr>count := 1, ipt_xloc := [0, 1, 1, 0], self_in := True, self_out := True\<rparr>) ! 1 = 1"
proof -
  have u: "ipt_xloc (ipt_update cf0 (s_start\<lparr>count := 1, ipt_xloc := [0, 1, 1, 0]\<rparr>)) = [0, 1, 1, 0]"
    "ipt_xloclast (s_start\<lparr>count := 1, ipt_xloc := [0, 1, 1, 0]\<rparr>) = [0, 1, 1, 0]"
    by (simp_all add: ipt_update_def s_start_def ipt_initial_def m_mid_def cf0_def Let_def)
  show ?thesis
    using converged_marking [where abs_sum = exact_sum and tol = tol0 and nm = False and cf = cf0
        and ri = quiet and ro = quiet and s = "s_start\<lparr>count := 1, ipt_xloc := [0, 1, 1, 0]\<rparr>"
        and oc = "Break (s_start\<lparr>count := 1, ipt_xloc := [0, 1, 1, 0], self_in := True, self_out := True\<rparr>)"
        and sent = "\<lparr>sent_in = Some \<lparr>msg_flag = True, msg_value = 1\<rparr>,
           sent_out = Some \<lparr>msg_flag = True, msg_value = 1\<rparr>\<rparr>"]
      ipt_pass2 within0
    by (simp add: u)
qed

lemma relax_pass: "relax_iteration (tol0\<lparr>maxits := 0\<rparr>) m_mid quiet_array quiet_array r_start =
    Inr (Break (r_start\<lparr>count := 1, xk1d := [0, 1, 0]\<rparr>))"
  by (simp add: relax_iteration_def relax_patch_rhs_def relax_set_flags_def relax_communicate_def
      relax_finish_def max_errors_def tridag_def r_start_def m_mid_def tol0_def quiet_array_def
      Let_def upt_rec numeral_2_eq_2 numeral_3_eq_3)

text \<open>
  C3 as stated fails: the earlier relaxation leaves the loop once the count exceeds
  \<open>maxits\<close> and returns the current iterate, with no flag set and no error.
\<close>

theorem relax_returns_beyond_budget:
  "relax_loop (tol0\<lparr>maxits := 0\<rparr>) m_mid (\<lambda>k. quiet_array) (\<lambda>k. quiet_array) r_start =
      Inr (r_start\<lparr>count := 1, xk1d := [0, 1, 0]\<rparr>)
   \<and> maxits (tol0\<lparr>maxits := 0\<rparr>) < count (r_start\<lparr>count := 1, xk1d := [0, 1, 0]\<rparr>)
   \<and> \<not> self_in (r_start\<lparr>count := 1, xk1d := [0, 1, 0]\<rparr>)
   \<and> \<not> self_out (r_start\<lparr>count := 1, xk1d := [0, 1, 0]\<rparr>)"
proof -
  have "relax_loop (tol0\<lparr>maxits := 0\<rparr>) m_mid (\<lambda>k. quiet_array) (\<lambda>k. quiet_array) r_start =
      Inr (r_start\<lparr>count := 1, xk1d := [0, 1, 0]\<rparr>)"
    by (subst relax_loop.simps) (simp add: relax_pass)
  then show ?thesis
    by (simp add: r_start_def)
qed

lemma ipt_finish_raises:
  "\<not> (self_in t \<and> self_out t) \<Longrightarrow> count t + 1 > maxits tol \<Longrightarrow>
     ipt_finish abs_sum tol cf t =
       Inl (if abs_sum (al cf) (bl cf) > 1 \<or> abs_sum (au cf) (bu cf) > 1
            then Maxits_not_diag_dominant else Maxits_diag_dominant)"
  by (auto simp: ipt_finish_def is_diagonally_dominant_def Let_def)

lemma ipt_iteration_raises:
  assumes "\<not> ((self_in s \<or> (count s > 0 \<and> edges_within_tolerance tol (ipt_xloc (ipt_update cf s)) (ipt_xloclast s)))
            \<and> (self_out s \<or> (count s > 0 \<and> edges_within_tolerance tol (ipt_xloc (ipt_update cf s)) (ipt_xloclast s))))"
    and "count s + 1 > maxits tol"
  shows "ipt_iteration abs_sum tol nm cf ri ro s =
       Inl (if abs_sum (al cf) (bl cf) > 1 \<or> abs_sum (au cf) (bu cf) > 1
            then Maxits_not_diag_dominant else Maxits_diag_dominant)"
proof -
  obtain s1 sent where c: "ipt_communicate nm ri ro (ipt_set_flags tol (ipt_update cf s)) = (s1, sent)"
    by (cases "ipt_communicate nm ri ro (ipt_set_flags tol (ipt_update cf s))")
  note c1 = ipt_communicate_sent [OF c]
  have cnt: "count s1 = count s"
    using ipt_communicate_count [of nm ri ro "ipt_set_flags tol (ipt_update cf s)"] c
    by (simp add: ipt_set_flags_count ipt_update_count)
  from c1 assms(1) have "\<not> (self_in s1 \<and> self_out s1)"
    by (simp add: ipt_set_flags_fields ipt_update_fields)
  moreover from cnt assms(2) have "count s1 + 1 > maxits tol" by simp
  ultimately have "ipt_finish abs_sum tol cf s1 =
       Inl (if abs_sum (al cf) (bl cf) > 1 \<or> abs_sum (au cf) (bu cf) > 1
            then Maxits_not_diag_dominant else Maxits_diag_dominant)"
    by (rule ipt_finish_raises)
  with c show ?thesis
    by (simp add: ipt_iteration_def)
qed

lemma relax_finish_beyond:
  "\<not> (self_in r \<and> self_out r) \<Longrightarrow> count r + 1 > maxits tol \<Longrightarrow>
     is_Break (relax_finish tol r) \<and> count (outcome_state (relax_finish tol r)) = count r + 1"
  by (simp add: relax_finish_def Let_def)

text \<open>
  C3 as amended, for \<open>LaplaceParallelTri::solve\<close>. In the final variant no pass continues
  with a count beyond \<open>maxits\<close>; the loop returns only through the converged exit; a
  pass in which the rank's own flags are not both set and which brings the count above
  \<open>maxits\<close> throws: \<open>no guarantee of convergence\<close> when the code finds
  \<open>|al| + |bl| > 1\<close> or \<open>|au| + |bu| > 1\<close> for its own coefficients (the sums as it
  evaluates them, \<open>abs_sum\<close>), \<open>increase maxits\<close> otherwise. In the earlier variants the
  same pass leaves the loop by \<open>break\<close> with the count above \<open>maxits\<close>.
\<close>

theorem budget_exceeded:
  "(ipt_iteration abs_sum tol nm cf ri ro s = Inr (Continue s1, sent) \<longrightarrow> count s1 \<le> maxits tol)
   \<and> (ipt_loop abs_sum tol nm cf recv_in recv_out s = Inr s' \<longrightarrow> self_in s' \<and> self_out s')
   \<and> (\<not> (self_in t \<and> self_out t) \<and> count t + 1 > maxits tol \<longrightarrow>
        ipt_finish abs_sum tol cf t =
          Inl (if abs_sum (al cf) (bl cf) > 1 \<or> abs_sum (au cf) (bu cf) > 1
               then Maxits_not_diag_dominant else Maxits_diag_dominant))
   \<and> (\<not> ((self_in s \<or> (count s > 0 \<and> edges_within_tolerance tol (ipt_xloc (ipt_update cf s)) (ipt_xloclast s)))
          \<and> (self_out s \<or> (count s > 0 \<and> edges_within_tolerance tol (ipt_xloc (ipt_update cf s)) (ipt_xloclast s))))
        \<and> count s + 1 > maxits tol \<longrightarrow>
        ipt_iteration abs_sum tol nm cf ri ro s =
          Inl (if abs_sum (al cf) (bl cf) > 1 \<or> abs_sum (au cf) (bu cf) > 1
               then Maxits_not_diag_dominant else Maxits_diag_dominant))
   \<and> (\<not> (self_in r \<and> self_out r) \<and> count r + 1 > maxits tol \<longrightarrow>
        is_Break (relax_finish tol r) \<and> count (outcome_state (relax_finish tol r)) = count r + 1)"
proof (intro conjI impI)
  assume "ipt_iteration abs_sum tol nm cf ri ro s = Inr (Continue s1, sent)"
  from ipt_iteration_Continue_count [OF this] show "count s1 \<le> maxits tol" by simp
next
  assume "ipt_loop abs_sum tol nm cf recv_in recv_out s = Inr s'"
  from ipt_loop_flags [OF this] show "self_in s'" "self_out s'" by simp_all
next
  assume "\<not> (self_in t \<and> self_out t) \<and> count t + 1 > maxits tol"
  then show "ipt_finish abs_sum tol cf t =
          Inl (if abs_sum (al cf) (bl cf) > 1 \<or> abs_sum (au cf) (bu cf) > 1
               then Maxits_not_diag_dominant else Maxits_diag_dominant)"
    using ipt_finish_raises by blast
next
  assume "\<not> ((self_in s \<or> (count s > 0 \<and> edges_within_tolerance tol (ipt_xloc (ipt_update cf s)) (ipt_xloclast s)))
          \<and> (self_out s \<or> (count s > 0 \<and> edges_within_tolerance tol (ipt_xloc (ipt_update cf s)) (ipt_xloclast s))))
        \<and> count s + 1 > maxits tol"
  then show "ipt_iteration abs_sum tol nm cf ri ro s =
          Inl (if abs_sum (al cf) (bl cf) > 1 \<or> abs_sum (au cf) (bu cf) > 1
               then Maxits_not_diag_dominant else Maxits_diag_dominant)"
    using ipt_iteration_raises by blast
next
  assume a: "\<not> (self_in r \<and> self_out r) \<and> count r + 1 > maxits tol"
  then show "is_Break (relax_finish tol r)"
    "count (outcome_state (relax_finish tol r)) = count r + 1"
    using relax_finish_beyond [of r tol] by simp_all
qed

theorem budget_exceeded_witness:
  "ipt_iteration exact_sum tol0 False cf0 quiet quiet s_start =
       Inr (Continue (s_start\<lparr>count := 1, ipt_xloc := [0, 1, 1, 0]\<rparr>),
            \<lparr>sent_in = Some \<lparr>msg_flag = False, msg_value = 1\<rparr>,
             sent_out = Some \<lparr>msg_flag = False, msg_value = 1\<rparr>\<rparr>)
   \<and> count (s_start\<lparr>count := 1, ipt_xloc := [0, 1, 1, 0]\<rparr>) \<le> maxits tol0
   \<and> ipt_loop exact_sum tol0 False cf0 (\<lambda>k. quiet) (\<lambda>k. quiet) s_start =
       Inr (s_start\<lparr>count := 1, ipt_xloc := [0, 1, 1, 0], self_in := True, self_out := True\<rparr>)
   \<and> \<not> (self_in s_start \<and> self_out s_start) \<and> count s_start + 1 > maxits (tol0\<lparr>maxits := 0\<rparr>)
   \<and> ipt_finish exact_sum (tol0\<lparr>maxits := 0\<rparr>) cf0 s_start = Inl Maxits_diag_dominant
   \<and> ipt_finish exact_sum (tol0\<lparr>maxits := 0\<rparr>) (cf0\<lparr>al := 2\<rparr>) s_start = Inl Maxits_not_diag_dominant
   \<and> ipt_iteration exact_sum (tol0\<lparr>maxits := 0\<rparr>) False cf0 quiet quiet s_start = Inl Maxits_diag_dominant
   \<and> \<not> (self_in r_start \<and> self_out r_start) \<and> count r_start + 1 > maxits (tol0\<lparr>maxits := 0\<rparr>)
   \<and> is_Break (relax_finish (tol0\<lparr>maxits := 0\<rparr>) r_start)
   \<and> count (outcome_state (relax_finish (tol0\<lparr>maxits := 0\<rparr>) r_start)) = 1"
proof -
  have l: "ipt_loop exact_sum tol0 False cf0 (\<lambda>k. quiet) (\<lambda>k. quiet) s_start =
       Inr (s_start\<lparr>count := 1, ipt_xloc := [0, 1, 1, 0], self_in := True, self_out := True\<rparr>)"
    by (rule ipt_loop_example)
  have st: "\<not> (self_in s_start \<and> self_out s_start)" "count s_start = 0"
    by (simp_all add: s_start_def ipt_initial_def)
  have rt: "\<not> (self_in r_start \<and> self_out r_start)" "count r_start = 0"
    by (simp_all add: r_start_def)
  have cf: "al cf0 = 0 \<and> au cf0 = 0 \<and> bl cf0 = 0 \<and> bu cf0 = 0" by (simp add: cf0_def)
  have es: "exact_sum 0 0 = 0" "exact_sum 2 0 = 2" by (simp_all add: exact_sum_def)
  have m: "maxits (tol0\<lparr>maxits := 0\<rparr>) = 0" "maxits tol0 = 100" by (simp_all add: tol0_def)
  show ?thesis
    using budget_exceeded [where abs_sum = exact_sum and tol = tol0 and nm = False and cf = cf0
        and ri = quiet and ro = quiet and s = s_start
        and ?s1.0 = "s_start\<lparr>count := 1, ipt_xloc := [0, 1, 1, 0]\<rparr>"
        and sent = "\<lparr>sent_in = Some \<lparr>msg_flag = False, msg_value = 1\<rparr>,
             sent_out = Some \<lparr>msg_flag = False, msg_value = 1\<rparr>\<rparr>"
        and recv_in = "\<lambda>k. quiet" and recv_out = "\<lambda>k. quiet"
        and s' = "s_start\<lparr>count := 1, ipt_xloc := [0, 1, 1, 0], self_in := True, self_out := True\<rparr>"]
      budget_exceeded [where abs_sum = exact_sum and tol = "tol0\<lparr>maxits := 0\<rparr>" and nm = False
        and cf = cf0 and ri = quiet and ro = quiet and s = s_start and t = s_start and r = r_start]
      budget_exceeded [where abs_sum = exact_sum and tol = "tol0\<lparr>maxits := 0\<rparr>"
        and cf = "cf0\<lparr>al := 2\<rparr>" and t = s_start]
      ipt_pass1 l st rt cf es m
    by simp
qed

lemma residual_kzloop_None:
  assumes "kz \<le> kz0" "kz0 < n" "\<not> cv ! nat kz0" "0 < n" "\<And>i k t. \<exists>t'. body i k t = Inr t'"
  shows "residual_kzloop fuel body n cv kz lv = None"
  using assms(1)
proof (induction fuel arbitrary: kz)
  case 0
  show ?case by simp
next
  case (Suc fuel)
  from Suc.prems assms(2) have kz: "kz < n" by simp
  show ?case
  proof (cases "cv ! nat kz")
    case True
    with assms(3) Suc.prems have "kz + 1 \<le> kz0"
      by (cases "kz = kz0") auto
    from Suc.IH [OF this] True kz show ?thesis by simp
  next
    case False
    have "residual_xloop fuel body n 0 kz lv = None"
      using assms(4,5) by (rule residual_xloop_None)
    with kz False show ?thesis by simp
  qed
qed

text \<open>
  C9: with a mode that has not converged, \<open>calculate_residual\<close> never returns normally,
  whatever the fuel: the inner loop tests \<open>ix < nmode\<close> and increments \<open>kz\<close>. With
  checked element access it throws; with a loop body that never throws it runs forever.
\<close>

theorem calculate_residual_never_returns:
  assumes "included lv" "kz0 < nmode l" "\<not> converged l ! kz0"
  shows "calculate_residual fuel l lv \<noteq> Some (Inr r)
     \<and> ((\<forall>i k t. \<exists>t'. body i k t = Inr t') \<longrightarrow>
          residual_kzloop fuel body (int (nmode l)) (converged l) 0 s = None)"
proof
  show "calculate_residual fuel l lv \<noteq> Some (Inr r)"
    using assms residual_kzloop_stuck [of 0 "int kz0" "int (nmode l)" "converged l" fuel residual_point lv r]
    by (simp add: calculate_residual_def)
next
  show "(\<forall>i k t. \<exists>t'. body i k t = Inr t') \<longrightarrow>
          residual_kzloop fuel body (int (nmode l)) (converged l) 0 s = None"
  proof
    assume b: "\<forall>i k t. \<exists>t'. body i k t = Inr t'"
    show "residual_kzloop fuel body (int (nmode l)) (converged l) 0 s = None"
    proof (rule residual_kzloop_None [where ?kz0.0 = "int kz0"])
      show "\<exists>t'. body i k t = Inr t'" for i k t using b by blast
    qed (use assms in simp_all)
  qed
qed

theorem calculate_residual_never_returns_witness:
  "included (init_level0 m0 l0) \<and> (0::nat) < nmode l0 \<and> \<not> converged l0 ! 0
   \<and> calculate_residual (Suc (Suc 0)) l0 (init_level0 m0 l0) = Some (Inl IndexOutOfRange)
   \<and> calculate_residual (Suc (Suc 0)) l0 (init_level0 m0 l0) \<noteq> Some (Inr (init_level0 m0 l0))
   \<and> residual_kzloop (Suc (Suc (Suc 0))) (\<lambda>i k t. Inr t) (int (nmode l0)) (converged l0) 0 () = None"
proof -
  have h: "included (init_level0 m0 l0)" "(0::nat) < nmode l0" "\<not> converged l0 ! 0"
    by (simp_all add: init_level0_def l0_def)
  have e: "calculate_residual (Suc (Suc 0)) l0 (init_level0 m0 l0) = Some (Inl IndexOutOfRange)"
    by (simp add: calculate_residual_def init_level0_def l0_def m0_def residual_point_def
        bindE_def mat_get_def)
  show ?thesis
    using h e calculate_residual_never_returns [OF h, where fuel = "Suc (Suc 0)"
        and r = "init_level0 m0 l0" and body = "\<lambda>i k t. Inr t" and s = "()"]
      calculate_residual_never_returns [OF h, where fuel = "Suc (Suc (Suc 0))"
        and r = "init_level0 m0 l0" and body = "\<lambda>i k t. Inr t" and s = "()"]
    by simp
qed


section \<open>Exactness of the reduction to the interface system\<close>

subsection \<open>The direct solve returns the solution, and the only one\<close>









subsection \<open>The rows of one rank\<close>

















subsection \<open>The ranks together\<close>













subsection \<open>The edge values at the end of the loop\<close>






lemma ipt_finish_Continue_last:
  "ipt_finish abs_sum tol cf s = Inr (Continue s') \<Longrightarrow> ipt_xloclast s' = ipt_xloc s'"
  by (auto simp: ipt_finish_def Let_def split: if_splits)




subsection \<open>Two ranks: the loops end on the direct solution\<close>








subsection \<open>Three ranks: the loops end away from the direct solution\<close>


















end
